theory Spec2Isabelle
  imports Complex_Main "HOL-Library.Multiset" "HOL-Library.Log_Nat"
begin

section \<open>The tank-level anomaly detector of \<^verbatim>\<open>detector/realtime_general_mongo.py\<close>\<close>

text \<open>
  The module keeps its detector state in module-level dictionaries and in attributes of the
  function \<^verbatim>\<open>check_invariants\<close>; here that state is one record that every operation
  takes and returns. A Python float is modelled as the real number it denotes, Python ints
  as \<open>int\<close>,
  a \<^verbatim>\<open>deque(maxlen=W)\<close> as a list with the oldest sample first, dictionaries as maps,
  and an exception as an error value: the \<open>Inl\<close> branch of a sum where the operation
  returns something, \<open>Some\<close> of the error where it returns nothing. An operation that
  raises still returns the state as far as it had changed it, as the mutation in place does.
\<close>

subsection \<open>Floating-point numbers\<close>

text \<open>
  A Python float is an IEEE 754 double. \<open>round_double\<close> rounds a real number to the nearest
  double, a tie going to the even significand: the binade of \<open>x\<close> is the exponent \<open>e\<close> with
  \<open>2 ^ e \<le> \<bar>x\<bar> < 2 ^ (e + 1)\<close>, not below -1022 where the subnormal numbers start, and the
  doubles of that binade are the multiples of \<open>2 ^ (e - 52)\<close>. A float literal denotes the
  rounding of its decimal value, and the difference of two floats is the rounding of their
  exact difference. Where the code would overflow to infinity the model has the number
  rounded with an unbounded exponent; the module only compares such a difference with a
  threshold, and the comparison has the same outcome for both.

  The two tests that compare a rounded difference of samples or of means with a literal, the
  dead band of the invariants and the threshold of the drift, are modelled with this rounding.
  The CUSUM statistics, the median and the means are modelled in exact arithmetic, without the
  rounding of each operation.
\<close>

definition round_half_even :: "real \<Rightarrow> int" where
  "round_half_even y =
     (let f = \<lfloor>y\<rfloor>; r = y - of_int f
      in if r < 1 / 2 then f else if r > 1 / 2 then f + 1 else if even f then f else f + 1)"

definition binade :: "real \<Rightarrow> int" where
  "binade x =
     (if \<bar>x\<bar> \<ge> 1 then int (floorlog 2 (nat \<lfloor>\<bar>x\<bar>\<rfloor>)) - 1
      else (let y = 1 / \<bar>x\<bar>; f = floorlog 2 (nat \<lfloor>y\<rfloor>) - 1
            in if y = 2 ^ f then - int f else - int f - 1))"

definition round_double :: "real \<Rightarrow> real" where
  "round_double x =
     (if x = 0 then 0
      else (let e = max (binade x) (- 1022);
                q = (if e \<ge> 52 then 2 ^ nat (e - 52) else 1 / 2 ^ nat (52 - e))
            in of_int (round_half_even (x / q)) * q))"

text \<open>\<^verbatim>\<open>x - y\<close> on floats.\<close>

definition float_sub :: "real \<Rightarrow> real \<Rightarrow> real" where
  "float_sub x y = round_double (x - y)"

subsection \<open>Configuration constants\<close>

definition W :: nat where "W = 144"
definition DECAY :: real where "DECAY = 99 / 100"
definition PERSISTENCE_THRESHOLD :: int where "PERSISTENCE_THRESHOLD = 2"
definition k_a_max :: real where "k_a_max = 3 / 10"
definition MIN_H :: real where "MIN_H = 8 / 10"
definition MAX_H :: real where "MAX_H = 10"
definition residual_mode :: string where "residual_mode = ''median''"
definition threshold_mode :: string where "threshold_mode = ''mad''"
definition INV_PERSIST :: int where "INV_PERSIST = 2"
definition DEAD_BAND :: real where "DEAD_BAND = round_double (1 / 10)"
definition DRIFT_THRESHOLD :: real where "DRIFT_THRESHOLD = round_double (6 / 10)"

subsection \<open>Data\<close>

type_synonym snapshot = "string \<rightharpoonup> real"

datatype error = KeyError string | NameError string

text \<open>The alert dictionaries, one constructor per shape; every one starts with the
  iteration and the tank.\<close>

datatype alert =
    CUSUM_ALARM int string real real int
  | INVARIANT_VIOLATION int string real real int
  | TANK_EMPTY int string
  | MEAN_DRIFT int string real real

text \<open>One entry of \<^verbatim>\<open>cusum_state\<close>. The keys \<^verbatim>\<open>h_t\<close> and \<^verbatim>\<open>persist\<close> are absent
  until the first detection step writes them.\<close>

record cusum_tank =
  buffer :: "real list"
  C_plus :: real
  C_minus :: real
  h_t :: "real option"
  persist :: "int option"

record detector_state =
  tanks :: "string list"
  pumps :: "string list"
  k_attack :: "string \<rightharpoonup> real"
  cusum_state :: "string \<rightharpoonup> cusum_tank"
  long_term_buffers :: "string \<rightharpoonup> real list"
  last_block_mean :: "string \<rightharpoonup> real option"
  inv_prev :: "string \<rightharpoonup> real"
  inv_badcnt :: "string \<rightharpoonup> int"

subsection \<open>Library operations the module relies on\<close>

text \<open>\<^verbatim>\<open>d.get(k, default)\<close>.\<close>

definition dict_get :: "('k \<rightharpoonup> 'v) \<Rightarrow> 'k \<Rightarrow> 'v \<Rightarrow> 'v" where
  "dict_get d k dflt = (case d k of None \<Rightarrow> dflt | Some v \<Rightarrow> v)"

text \<open>\<^verbatim>\<open>deque(maxlen=W).append(x)\<close>: a full deque drops its oldest element.\<close>

definition deque_append :: "'a list \<Rightarrow> 'a \<Rightarrow> 'a list" where
  "deque_append d x = (if length d < W then d @ [x] else tl d @ [x])"

text \<open>\<^verbatim>\<open>np.mean\<close>, \<^verbatim>\<open>np.median\<close> and \<^verbatim>\<open>np.std\<close>. On an empty sequence numpy returns
  nan; the module only calls them on a window of at least \<open>W\<close> samples, and the value the
  model gives on the empty list (0) is never used.\<close>

definition mean_np :: "real list \<Rightarrow> real" where
  "mean_np xs = sum_list xs / real (length xs)"

definition median_np :: "real list \<Rightarrow> real" where
  "median_np xs =
     (let s = sort xs; n = length xs in
      if n = 0 then 0
      else if odd n then s ! (n div 2)
      else (s ! (n div 2 - 1) + s ! (n div 2)) / 2)"

definition std_np :: "real list \<Rightarrow> real" where
  "std_np xs = sqrt (mean_np (map (\<lambda>x. (x - mean_np xs)\<^sup>2) xs))"

subsection \<open>CUSUM\<close>

definition compute_threshold_and_residual ::
  "(string \<rightharpoonup> real) \<Rightarrow> real list \<Rightarrow> real \<Rightarrow> string \<Rightarrow> real \<times> real \<times> real" where
  "compute_threshold_and_residual ka buf x_t tank =
     (let estimate = (if residual_mode = ''median'' then median_np buf else mean_np buf);
          residual = x_t - estimate
      in if threshold_mode = ''mad'' then
           (let mad = mean_np (map (\<lambda>b. \<bar>b - median_np buf\<bar>) buf);
                rolling_mad = max (14826 / 10000 * mad) (1 / 1000000);
                h = min (max (3 * rolling_mad) MIN_H) MAX_H;
                k_a = max k_a_max (dict_get ka tank k_a_max * rolling_mad)
            in (residual, h, k_a))
         else
           (let std = max (std_np buf) (1 / 1000000);
                h = min (max (3 * std) MIN_H) MAX_H;
                k_a = max k_a_max (dict_get ka tank k_a_max * std)
            in (residual, h, k_a)))"

text \<open>The body of the loop of \<^verbatim>\<open>check_cusum\<close> for one tank whose entry is \<open>st\<close>:
  the new entry and the alerts appended.\<close>

definition cusum_tank_step ::
  "(string \<rightharpoonup> real) \<Rightarrow> int \<Rightarrow> string \<Rightarrow> real \<Rightarrow> cusum_tank \<Rightarrow> cusum_tank \<times> alert list" where
  "cusum_tank_step ka current_time tank x_t st =
     (if length (buffer st) < W then (st\<lparr>buffer := deque_append (buffer st) x_t\<rparr>, [])
      else
        (let (residual, h, k_a) = compute_threshold_and_residual ka (buffer st) x_t tank;
             cp = max 0 (DECAY * C_plus st + residual - k_a);
             cm = max 0 (DECAY * C_minus st - residual - k_a);
             above = (cp > h \<or> cm > h);
             p0 = (case persist st of None \<Rightarrow> 0 | Some p \<Rightarrow> p);
             p = (if above then min (p0 + 1) PERSISTENCE_THRESHOLD else 0)
         in (st\<lparr>buffer := deque_append (buffer st) x_t, C_plus := cp, C_minus := cm,
                 h_t := Some h, persist := Some p\<rparr>,
             if p \<ge> PERSISTENCE_THRESHOLD then [CUSUM_ALARM current_time tank cp cm p] else [])))"

text \<open>The loop over \<^verbatim>\<open>tanks\<close>. \<^verbatim>\<open>cusum_state[tank]\<close> raises KeyError for a tank without an
  entry; the entries written before that stay written.\<close>

fun check_cusum_loop ::
  "snapshot \<Rightarrow> int \<Rightarrow> string list \<Rightarrow> alert list \<Rightarrow> detector_state
     \<Rightarrow> (error + alert list) \<times> detector_state" where
  "check_cusum_loop state current_time [] alerts s = (Inr alerts, s)"
| "check_cusum_loop state current_time (tank # rest) alerts s =
     (case cusum_state s tank of
        None \<Rightarrow> (Inl (KeyError tank), s)
      | Some st \<Rightarrow>
          (let (st', new) = cusum_tank_step (k_attack s) current_time tank (dict_get state tank 0) st
           in check_cusum_loop state current_time rest (alerts @ new)
                (s\<lparr>cusum_state := (cusum_state s)(tank \<mapsto> st')\<rparr>)))"

definition check_cusum ::
  "snapshot \<Rightarrow> int \<Rightarrow> detector_state \<Rightarrow> (error + alert list) \<times> detector_state" where
  "check_cusum state current_time s = check_cusum_loop state current_time (tanks s) [] s"

subsection \<open>Invariants\<close>

text \<open>\<^verbatim>\<open>any(state.get(p, 0) for p in pumps)\<close>: a float is true when it is not zero.\<close>

definition pump_on_of :: "snapshot \<Rightarrow> string list \<Rightarrow> bool" where
  "pump_on_of state ps = list_ex (\<lambda>p. dict_get state p 0 \<noteq> 0) ps"

text \<open>The body of the loop of \<^verbatim>\<open>check_invariants\<close> for one tank. The function attributes
  \<^verbatim>\<open>prev_<tank>\<close> and \<^verbatim>\<open>badcnt_<tank>\<close> are the maps \<open>inv_prev\<close> and \<open>inv_badcnt\<close>; an absent
  attribute reads as None and 0.\<close>

definition invariant_tank_step ::
  "bool \<Rightarrow> int \<Rightarrow> string \<Rightarrow> real \<Rightarrow> detector_state \<Rightarrow> alert list \<times> detector_state" where
  "invariant_tank_step pump_on current_time tank level s =
     (let prev = inv_prev s tank;
          badcnt = dict_get (inv_badcnt s) tank 0;
          s1 = s\<lparr>inv_prev := (inv_prev s)(tank \<mapsto> level)\<rparr>
      in case prev of
           None \<Rightarrow> ([], s1)
         | Some pv \<Rightarrow>
             (let delta = float_sub level pv;
                  violated = ((pump_on \<and> delta < - DEAD_BAND) \<or> (\<not> pump_on \<and> delta > DEAD_BAND));
                  badcnt' = (if violated then badcnt + 1 else 0);
                  s2 = s1\<lparr>inv_badcnt := (inv_badcnt s1)(tank \<mapsto> badcnt')\<rparr>;
                  (a1, s3) =
                    (if badcnt' \<ge> INV_PERSIST
                     then ([INVARIANT_VIOLATION current_time tank level pv badcnt'],
                           s2\<lparr>inv_badcnt := (inv_badcnt s2)(tank \<mapsto> 0)\<rparr>)
                     else ([], s2));
                  a2 = (if level = 0 then [TANK_EMPTY current_time tank] else [])
              in (a1 @ a2, s3)))"

fun check_invariants_loop ::
  "snapshot \<Rightarrow> int \<Rightarrow> bool \<Rightarrow> string list \<Rightarrow> alert list \<Rightarrow> detector_state
     \<Rightarrow> alert list \<times> detector_state" where
  "check_invariants_loop state current_time pump_on [] alerts s = (alerts, s)"
| "check_invariants_loop state current_time pump_on (tank # rest) alerts s =
     (let (new, s') = invariant_tank_step pump_on current_time tank (dict_get state tank 0) s
      in check_invariants_loop state current_time pump_on rest (alerts @ new) s')"

definition check_invariants ::
  "snapshot \<Rightarrow> int \<Rightarrow> detector_state \<Rightarrow> alert list \<times> detector_state" where
  "check_invariants state current_time s =
     check_invariants_loop state current_time (pump_on_of state (pumps s)) (tanks s) [] s"

subsection \<open>Mean drift\<close>

text \<open>The first loop of \<^verbatim>\<open>check_drift\<close>: every tank's buffer receives the current value.\<close>

fun drift_append_loop ::
  "snapshot \<Rightarrow> string list \<Rightarrow> detector_state \<Rightarrow> error option \<times> detector_state" where
  "drift_append_loop state [] s = (None, s)"
| "drift_append_loop state (tank # rest) s =
     (case long_term_buffers s tank of
        None \<Rightarrow> (Some (KeyError tank), s)
      | Some b \<Rightarrow>
          drift_append_loop state rest
            (s\<lparr>long_term_buffers :=
                 (long_term_buffers s)(tank \<mapsto> deque_append b (dict_get state tank 0))\<rparr>))"

text \<open>\<^verbatim>\<open>all(len(long_term_buffers[t]) >= W for t in tanks)\<close>, stopping at the first short
  buffer.\<close>

fun drift_all_full :: "string list \<Rightarrow> detector_state \<Rightarrow> error + bool" where
  "drift_all_full [] s = Inr True"
| "drift_all_full (t # rest) s =
     (case long_term_buffers s t of
        None \<Rightarrow> Inl (KeyError t)
      | Some b \<Rightarrow> if length b \<ge> W then drift_all_full rest s else Inr False)"

text \<open>The loop that compares the block means.\<close>

fun drift_eval_loop ::
  "int \<Rightarrow> string list \<Rightarrow> alert list \<Rightarrow> detector_state
     \<Rightarrow> (error + alert list) \<times> detector_state" where
  "drift_eval_loop current_time [] alerts s = (Inr alerts, s)"
| "drift_eval_loop current_time (tank # rest) alerts s =
     (case long_term_buffers s tank of
        None \<Rightarrow> (Inl (KeyError tank), s)
      | Some b \<Rightarrow>
          (let cur_mean = mean_np b in
           case last_block_mean s tank of
             None \<Rightarrow> (Inl (KeyError tank), s)
           | Some prev_mean \<Rightarrow>
               (let new =
                      (case prev_mean of
                         None \<Rightarrow> []
                       | Some pm \<Rightarrow>
                           if \<bar>float_sub cur_mean pm\<bar> > DRIFT_THRESHOLD
                           then [MEAN_DRIFT current_time tank pm cur_mean] else [])
                in drift_eval_loop current_time rest (alerts @ new)
                     (s\<lparr>last_block_mean := (last_block_mean s)(tank \<mapsto> Some cur_mean)\<rparr>))))"

text \<open>The loop that clears the buffers.\<close>

fun drift_clear_loop :: "string list \<Rightarrow> detector_state \<Rightarrow> error option \<times> detector_state" where
  "drift_clear_loop [] s = (None, s)"
| "drift_clear_loop (t # rest) s =
     (case long_term_buffers s t of
        None \<Rightarrow> (Some (KeyError t), s)
      | Some b \<Rightarrow> drift_clear_loop rest (s\<lparr>long_term_buffers := (long_term_buffers s)(t \<mapsto> [])\<rparr>))"

definition check_drift ::
  "snapshot \<Rightarrow> int \<Rightarrow> detector_state \<Rightarrow> (error + alert list) \<times> detector_state" where
  "check_drift state current_time s =
     (case drift_append_loop state (tanks s) s of
        (Some e, s1) \<Rightarrow> (Inl e, s1)
      | (None, s1) \<Rightarrow>
          (case drift_all_full (tanks s1) s1 of
             Inl e \<Rightarrow> (Inl e, s1)
           | Inr False \<Rightarrow> (Inr [], s1)
           | Inr True \<Rightarrow>
               (case drift_eval_loop current_time (tanks s1) [] s1 of
                  (Inl e, s2) \<Rightarrow> (Inl e, s2)
                | (Inr alerts, s2) \<Rightarrow>
                    (case drift_clear_loop (tanks s2) s2 of
                       (Some e, s3) \<Rightarrow> (Inl e, s3)
                     | (None, s3) \<Rightarrow> (Inr alerts, s3)))))"

subsection \<open>The monitoring loop\<close>

text \<open>What \<^verbatim>\<open>monitor\<close> prints inside its polling loop: the warm-up line with the window
  sizes, one line per forwarded alert, the summary line with \<open>C_plus\<close>, \<open>C_minus\<close> and
  \<open>h_t\<close> per tank, and the line of the exception handler.\<close>

datatype line =
    WarmingUp "(string \<times> nat) list"
  | AlertLine alert
  | Summary int "(string \<times> real \<times> real \<times> real) list"
  | ErrorLine error

record monitor_state =
  det :: detector_state
  last_time :: int
  console :: "line list"
  delivered :: "alert list"

text \<open>The state that \<^verbatim>\<open>monitor\<close> builds after topology discovery, for the discovered
  tanks and pumps.\<close>

definition init_detector :: "string list \<Rightarrow> string list \<Rightarrow> detector_state" where
  "init_detector ts ps =
     \<lparr>tanks = ts, pumps = ps,
      k_attack = map_of (map (\<lambda>t. (t, 135 / 100)) ts),
      cusum_state =
        map_of (map (\<lambda>t. (t, \<lparr>buffer = [], C_plus = 0, C_minus = 0, h_t = None, persist = None\<rparr>)) ts),
      long_term_buffers = map_of (map (\<lambda>t. (t, [])) ts),
      last_block_mean = map_of (map (\<lambda>t. (t, None)) ts),
      inv_prev = Map.empty, inv_badcnt = Map.empty\<rparr>"

definition init_monitor :: "string list \<Rightarrow> string list \<Rightarrow> monitor_state" where
  "init_monitor ts ps =
     \<lparr>det = init_detector ts ps, last_time = - 1, console = [], delivered = []\<rparr>"

text \<open>\<^verbatim>\<open>any(len(cusum_state[t]["buffer"]) < W for t in tanks)\<close>.\<close>

fun any_warming :: "string list \<Rightarrow> detector_state \<Rightarrow> error + bool" where
  "any_warming [] s = Inr False"
| "any_warming (t # rest) s =
     (case cusum_state s t of
        None \<Rightarrow> Inl (KeyError t)
      | Some st \<Rightarrow> if length (buffer st) < W then Inr True else any_warming rest s)"

text \<open>\<^verbatim>\<open>{t: len(cusum_state[t]["buffer"]) for t in tanks}\<close>.\<close>

fun buffer_counts :: "string list \<Rightarrow> detector_state \<Rightarrow> error + (string \<times> nat) list" where
  "buffer_counts [] s = Inr []"
| "buffer_counts (t # rest) s =
     (case cusum_state s t of
        None \<Rightarrow> Inl (KeyError t)
      | Some st \<Rightarrow>
          (case buffer_counts rest s of
             Inl e \<Rightarrow> Inl e
           | Inr cs \<Rightarrow> Inr ((t, length (buffer st)) # cs)))"

text \<open>The entries of the summary line; reading the key \<^verbatim>\<open>h_t\<close> before a detection step
  has written it raises KeyError.\<close>

fun summary_of :: "string list \<Rightarrow> detector_state \<Rightarrow> error + (string \<times> real \<times> real \<times> real) list" where
  "summary_of [] s = Inr []"
| "summary_of (t # rest) s =
     (case cusum_state s t of
        None \<Rightarrow> Inl (KeyError t)
      | Some st \<Rightarrow>
          (case h_t st of
             None \<Rightarrow> Inl (KeyError ''h_t'')
           | Some h \<Rightarrow>
               (case summary_of rest s of
                  Inl e \<Rightarrow> Inl e
                | Inr xs \<Rightarrow> Inr ((t, C_plus st, C_minus st, h) # xs))))"

text \<open>The three forwarding loops call the global name \<^verbatim>\<open>write_alert\<close> and then print the
  alert. The name is a parameter \<open>wa\<close> of the model: \<open>wa a\<close> is the exception the call
  raises, if any. An exception leaves the loop; the alerts forwarded before it stay
  forwarded.\<close>

fun forward_alerts ::
  "(alert \<Rightarrow> error option) \<Rightarrow> alert list \<Rightarrow> monitor_state \<Rightarrow> error option \<times> monitor_state" where
  "forward_alerts wa [] m = (None, m)"
| "forward_alerts wa (a # rest) m =
     (case wa a of
        Some e \<Rightarrow> (Some e, m)
      | None \<Rightarrow>
          forward_alerts wa rest
            (m\<lparr>delivered := delivered m @ [a], console := console m @ [AlertLine a]\<rparr>))"

text \<open>The module neither defines nor imports \<^verbatim>\<open>write_alert\<close>, so in the module as it
  stands the call raises NameError.\<close>

definition write_alert :: "alert \<Rightarrow> error option" where
  "write_alert a = Some (NameError ''write_alert'')"

text \<open>The handler \<^verbatim>\<open>except Exception as e: print(f"[ERROR] {e}")\<close>.\<close>

definition log_error :: "error \<Rightarrow> monitor_state \<Rightarrow> monitor_state" where
  "log_error e m = m\<lparr>console := console m @ [ErrorLine e]\<rparr>"

text \<open>The part of a pass after the warm-up test: the second call of \<^verbatim>\<open>check_cusum\<close>, the
  invariants, the drift, each followed by its forwarding loop, then the summary and the
  update of \<open>last_time\<close>.\<close>

definition detect_and_forward ::
  "(alert \<Rightarrow> error option) \<Rightarrow> snapshot \<Rightarrow> int \<Rightarrow> monitor_state \<Rightarrow> monitor_state" where
  "detect_and_forward wa state current_time m =
     (case check_cusum state current_time (det m) of
        (Inl e, d2) \<Rightarrow> log_error e (m\<lparr>det := d2\<rparr>)
      | (Inr a1, d2) \<Rightarrow>
          (case forward_alerts wa a1 (m\<lparr>det := d2\<rparr>) of
             (Some e, m2) \<Rightarrow> log_error e m2
           | (None, m2) \<Rightarrow>
               (case check_invariants state current_time (det m2) of
                  (a2, d3) \<Rightarrow>
                    (case forward_alerts wa a2 (m2\<lparr>det := d3\<rparr>) of
                       (Some e, m3) \<Rightarrow> log_error e m3
                     | (None, m3) \<Rightarrow>
                         (case check_drift state current_time (det m3) of
                            (Inl e, d4) \<Rightarrow> log_error e (m3\<lparr>det := d4\<rparr>)
                          | (Inr a3, d4) \<Rightarrow>
                              (case forward_alerts wa a3 (m3\<lparr>det := d4\<rparr>) of
                                 (Some e, m4) \<Rightarrow> log_error e m4
                               | (None, m4) \<Rightarrow>
                                   (case summary_of (tanks (det m4)) (det m4) of
                                      Inl e \<Rightarrow> log_error e m4
                                    | Inr xs \<Rightarrow>
                                        m4\<lparr>console := console m4 @ [Summary current_time xs],
                                           last_time := current_time\<rparr>)))))))"

text \<open>One pass of the polling loop of \<^verbatim>\<open>monitor\<close>, for the value \<open>current_time\<close> that
  \<^verbatim>\<open>get_master_time\<close> returned and the snapshot \<open>state\<close> that \<^verbatim>\<open>get_current_state\<close>
  returns. The sleep between passes is not modelled.\<close>

definition monitor_pass ::
  "(alert \<Rightarrow> error option) \<Rightarrow> int option \<Rightarrow> snapshot \<Rightarrow> monitor_state \<Rightarrow> monitor_state" where
  "monitor_pass wa current_time state m =
     (case current_time of
        None \<Rightarrow> m
      | Some ct \<Rightarrow>
          if ct = last_time m then m
          else
            (case check_cusum state ct (det m) of
               (Inl e, d1) \<Rightarrow> log_error e (m\<lparr>det := d1\<rparr>)
             | (Inr discarded, d1) \<Rightarrow>
                 (case any_warming (tanks d1) d1 of
                    Inl e \<Rightarrow> log_error e (m\<lparr>det := d1\<rparr>)
                  | Inr True \<Rightarrow>
                      (case buffer_counts (tanks d1) d1 of
                         Inl e \<Rightarrow> log_error e (m\<lparr>det := d1\<rparr>)
                       | Inr counts \<Rightarrow>
                           m\<lparr>det := d1, console := console m @ [WarmingUp counts],
                             last_time := ct\<rparr>)
                  | Inr False \<Rightarrow> detect_and_forward wa state ct (m\<lparr>det := d1\<rparr>))))"

text \<open>A run of the loop over the successive poll results.\<close>

fun monitor_run ::
  "(alert \<Rightarrow> error option) \<Rightarrow> (int option \<times> snapshot) list \<Rightarrow> monitor_state \<Rightarrow> monitor_state" where
  "monitor_run wa [] m = m"
| "monitor_run wa ((ct, state) # rest) m = monitor_run wa rest (monitor_pass wa ct state m)"

subsection \<open>Notions used to state the properties\<close>

text \<open>The tank an alert is about.\<close>

fun alert_tank :: "alert \<Rightarrow> string" where
  "alert_tank (CUSUM_ALARM ct tank cp cm p) = tank"
| "alert_tank (INVARIANT_VIOLATION ct tank level pv p) = tank"
| "alert_tank (TANK_EMPTY ct tank) = tank"
| "alert_tank (MEAN_DRIFT ct tank pm cm) = tank"

text \<open>The persistence counter of an entry, as \<^verbatim>\<open>st.setdefault("persist", 0)\<close> reads it.\<close>

definition persist_count :: "cusum_tank \<Rightarrow> int" where
  "persist_count st = (case persist st of None \<Rightarrow> 0 | Some p \<Rightarrow> p)"

text \<open>The condition \<^verbatim>\<open>above\<close> of the last update of an entry.\<close>

definition above_threshold :: "cusum_tank \<Rightarrow> bool" where
  "above_threshold st = (case h_t st of None \<Rightarrow> False | Some h \<Rightarrow> C_plus st > h \<or> C_minus st > h)"

text \<open>Successive calls of \<^verbatim>\<open>check_cusum\<close> and of \<^verbatim>\<open>check_invariants\<close>, one per pair of an
  iteration and a snapshot, with the result of every call.\<close>

fun check_cusum_calls ::
  "(int \<times> snapshot) list \<Rightarrow> detector_state \<Rightarrow> (error + alert list) list \<times> detector_state" where
  "check_cusum_calls [] s = ([], s)"
| "check_cusum_calls ((ct, state) # rest) s =
     (case check_cusum state ct s of
        (r, s1) \<Rightarrow> (case check_cusum_calls rest s1 of (rs, s2) \<Rightarrow> (r # rs, s2)))"

fun check_invariants_calls ::
  "(int \<times> snapshot) list \<Rightarrow> detector_state \<Rightarrow> alert list list \<times> detector_state" where
  "check_invariants_calls [] s = ([], s)"
| "check_invariants_calls ((ct, state) # rest) s =
     (case check_invariants state ct s of
        (r, s1) \<Rightarrow> (case check_invariants_calls rest s1 of (rs, s2) \<Rightarrow> (r # rs, s2)))"

text \<open>Both statistics of every entry are non-negative.\<close>

definition cusum_nonneg :: "detector_state \<Rightarrow> bool" where
  "cusum_nonneg s = (\<forall>t st. cusum_state s t = Some st \<longrightarrow> 0 \<le> C_plus st \<and> 0 \<le> C_minus st)"

text \<open>The detector state after successive calls of \<^verbatim>\<open>check_cusum\<close> that all fall into the
  warm-up: every window holds the samples of the calls, nothing else has changed.\<close>

definition warm_state :: "string list \<Rightarrow> string list \<Rightarrow> (int \<times> snapshot) list \<Rightarrow> detector_state" where
  "warm_state ts ps calls = (init_detector ts ps)\<lparr>cusum_state := (\<lambda>t. if t \<in> set ts
       then Some \<lparr>buffer = map (\<lambda>c. dict_get (snd c) t 0) calls, C_plus = 0, C_minus = 0,
                  h_t = None, persist = None\<rparr> else None)\<rparr>"

text \<open>The kinds of alert \<^verbatim>\<open>check_invariants\<close> emits.\<close>

fun is_invariant_violation :: "alert \<Rightarrow> bool" where
  "is_invariant_violation (INVARIANT_VIOLATION ct tank level pv p) = True"
| "is_invariant_violation a = False"

fun is_tank_empty :: "alert \<Rightarrow> bool" where
  "is_tank_empty (TANK_EMPTY ct tank) = True"
| "is_tank_empty a = False"

text \<open>The alert that the block comparison of \<^verbatim>\<open>check_drift\<close> appends for one tank, given the
  previous block mean and the current one.\<close>

definition drift_alert :: "int \<Rightarrow> string \<Rightarrow> real option \<Rightarrow> real \<Rightarrow> alert list" where
  "drift_alert ct tank prev_mean cur_mean =
     (case prev_mean of
        None \<Rightarrow> []
      | Some pm \<Rightarrow>
          if \<bar>float_sub cur_mean pm\<bar> > DRIFT_THRESHOLD then [MEAN_DRIFT ct tank pm cur_mean] else [])"

section \<open>Properties\<close>

subsection \<open>The float literals\<close>

text \<open>The facts that evaluate a rounding on a concrete number.\<close>

lemmas double_eval =
  round_double_def binade_def round_half_even_def compute_floorlog float_sub_def

text \<open>The literals \<^verbatim>\<open>0.10\<close> and \<^verbatim>\<open>0.6\<close> as doubles.\<close>

lemma DEAD_BAND_value: "DEAD_BAND = 3602879701896397 / 36028797018963968"
  by (simp add: DEAD_BAND_def double_eval Let_def)

lemma DRIFT_THRESHOLD_value: "DRIFT_THRESHOLD = 5404319552844595 / 9007199254740992"
  by (simp add: DRIFT_THRESHOLD_def double_eval Let_def)

lemma DEAD_BAND_pos: "0 < DEAD_BAND"
  by (simp add: DEAD_BAND_value)

subsection \<open>The loops, tank by tank\<close>

text \<open>When the tanks are distinct and each has an entry, \<^verbatim>\<open>check_cusum\<close> raises nothing and
  applies the loop body to every tank's entry independently.\<close>

lemma check_cusum_loop_char:
  "distinct ts \<Longrightarrow> \<forall>t \<in> set ts. cusum_state s t \<noteq> None \<Longrightarrow>
   check_cusum_loop state ct ts alerts s =
     (Inr (alerts @ concat (map (\<lambda>t. snd (cusum_tank_step (k_attack s) ct t (dict_get state t 0)
                                         (the (cusum_state s t)))) ts)),
      s\<lparr>cusum_state := (\<lambda>t. if t \<in> set ts
           then Some (fst (cusum_tank_step (k_attack s) ct t (dict_get state t 0) (the (cusum_state s t))))
           else cusum_state s t)\<rparr>)"
proof (induction ts arbitrary: alerts s)
  case Nil
  then show ?case by simp
next
  case (Cons a ts)
  from Cons.prems obtain st where st: "cusum_state s a = Some st" by auto
  obtain st' new where step: "cusum_tank_step (k_attack s) ct a (dict_get state a 0) st = (st', new)"
    by (cases "cusum_tank_step (k_attack s) ct a (dict_get state a 0) st")
  let ?s1 = "s\<lparr>cusum_state := (cusum_state s)(a \<mapsto> st')\<rparr>"
  have d: "distinct ts" and na: "a \<notin> set ts" using Cons.prems by auto
  have dom1: "\<forall>t \<in> set ts. cusum_state ?s1 t \<noteq> None" using Cons.prems by auto
  have ih: "check_cusum_loop state ct ts (alerts @ new) ?s1 =
     (Inr ((alerts @ new) @ concat (map (\<lambda>t. snd (cusum_tank_step (k_attack ?s1) ct t (dict_get state t 0)
                                         (the (cusum_state ?s1 t)))) ts)),
      ?s1\<lparr>cusum_state := (\<lambda>t. if t \<in> set ts
           then Some (fst (cusum_tank_step (k_attack ?s1) ct t (dict_get state t 0) (the (cusum_state ?s1 t))))
           else cusum_state ?s1 t)\<rparr>)"
    by (rule Cons.IH [OF d dom1])
  have m: "map (\<lambda>t. snd (cusum_tank_step (k_attack ?s1) ct t (dict_get state t 0) (the (cusum_state ?s1 t)))) ts
         = map (\<lambda>t. snd (cusum_tank_step (k_attack s) ct t (dict_get state t 0) (the (cusum_state s t)))) ts"
    using na by (intro map_cong) auto
  have f: "(\<lambda>t. if t \<in> set ts
           then Some (fst (cusum_tank_step (k_attack ?s1) ct t (dict_get state t 0) (the (cusum_state ?s1 t))))
           else cusum_state ?s1 t) = (\<lambda>t. if t \<in> set (a # ts)
           then Some (fst (cusum_tank_step (k_attack s) ct t (dict_get state t 0) (the (cusum_state s t))))
           else cusum_state s t)"
    using na st step by (auto simp: fun_eq_iff)
  have ih': "check_cusum_loop state ct ts (alerts @ new) ?s1 =
     (Inr (alerts @ new @ concat (map (\<lambda>t. snd (cusum_tank_step (k_attack s) ct t (dict_get state t 0)
                                         (the (cusum_state s t)))) ts)),
      s\<lparr>cusum_state := (\<lambda>t. if t \<in> set (a # ts)
           then Some (fst (cusum_tank_step (k_attack s) ct t (dict_get state t 0) (the (cusum_state s t))))
           else cusum_state s t)\<rparr>)"
    unfolding ih m f by simp
  show ?case
    unfolding check_cusum_loop.simps st option.case step prod.case Let_def ih'
    using st step by simp
qed

text \<open>The alerts of one tank among those of a loop over distinct tanks.\<close>

lemma filter_concat_tank:
  assumes "distinct ts" and "tank \<in> set ts" and "\<And>t a. a \<in> set (f t) \<Longrightarrow> alert_tank a = t"
  shows "filter (\<lambda>a. alert_tank a = tank) (concat (map f ts)) = f tank"
  using assms(1,2)
proof (induction ts)
  case Nil
  then show ?case by simp
next
  case (Cons b ts)
  have fb: "filter (\<lambda>a. alert_tank a = tank) (f b) = (if b = tank then f b else [])"
    using assms(3) [of _ b] by (auto simp: filter_id_conv filter_empty_conv)
  have rest: "tank \<notin> set ts \<Longrightarrow> filter (\<lambda>a. alert_tank a = tank) (concat (map f ts)) = []"
    using assms(3) by (auto simp: filter_empty_conv)
  show ?case
  proof (cases "b = tank")
    case True
    then show ?thesis using Cons.prems fb rest by simp
  next
    case False
    then show ?thesis using Cons fb by simp
  qed
qed

subsection \<open>The CUSUM statistics stay non-negative\<close>

lemma cusum_tank_step_nonneg:
  "0 \<le> C_plus st \<Longrightarrow> 0 \<le> C_minus st \<Longrightarrow>
   0 \<le> C_plus (fst (cusum_tank_step ka ct tank x st)) \<and>
   0 \<le> C_minus (fst (cusum_tank_step ka ct tank x st))"
  by (simp add: cusum_tank_step_def Let_def split: prod.splits)

lemma check_cusum_loop_nonneg:
  "\<forall>t st. cusum_state s t = Some st \<longrightarrow> 0 \<le> C_plus st \<and> 0 \<le> C_minus st \<Longrightarrow>
   cusum_state (snd (check_cusum_loop state ct ts alerts s)) t = Some st \<Longrightarrow>
   0 \<le> C_plus st \<and> 0 \<le> C_minus st"
proof (induction ts arbitrary: alerts s)
  case Nil
  then show ?case by simp
next
  case (Cons a ts)
  show ?case
  proof (cases "cusum_state s a")
    case None
    with Cons.prems show ?thesis by simp
  next
    case (Some e)
    obtain e' new where step: "cusum_tank_step (k_attack s) ct a (dict_get state a 0) e = (e', new)"
      by (cases "cusum_tank_step (k_attack s) ct a (dict_get state a 0) e")
    have e: "0 \<le> C_plus e \<and> 0 \<le> C_minus e" using Cons.prems(1) Some by blast
    have e': "0 \<le> C_plus e' \<and> 0 \<le> C_minus e'"
      using cusum_tank_step_nonneg [of e "k_attack s" ct a "dict_get state a 0"] e step by simp
    let ?s1 = "s\<lparr>cusum_state := (cusum_state s)(a \<mapsto> e')\<rparr>"
    have inv1: "\<forall>t st. cusum_state ?s1 t = Some st \<longrightarrow> 0 \<le> C_plus st \<and> 0 \<le> C_minus st"
      using Cons.prems(1) e' by auto
    have "cusum_state (snd (check_cusum_loop state ct ts (alerts @ new) ?s1)) t = Some st"
      using Cons.prems(2) Some step by simp
    from Cons.IH [OF inv1 this] show ?thesis .
  qed
qed

lemma check_cusum_nonneg:
  "cusum_nonneg s \<Longrightarrow> check_cusum state ct s = (r, s') \<Longrightarrow> cusum_nonneg s'"
  unfolding cusum_nonneg_def check_cusum_def
  using check_cusum_loop_nonneg [of s state ct "tanks s" "[]"] by (metis snd_conv)

text \<open>The other two detectors and the forwarding loops leave \<^verbatim>\<open>cusum_state\<close> alone.\<close>

lemma check_invariants_loop_cusum_state:
  "cusum_state (snd (check_invariants_loop state ct po ts alerts s)) = cusum_state s"
  by (induction ts arbitrary: alerts s)
     (simp_all add: invariant_tank_step_def Let_def split: prod.splits option.splits if_splits)

lemma check_invariants_cs:
  "check_invariants state ct s = (a, s') \<Longrightarrow> cusum_state s' = cusum_state s"
  using check_invariants_loop_cusum_state [of state ct "pump_on_of state (pumps s)" "tanks s" "[]" s]
  by (simp add: check_invariants_def)

lemma drift_append_loop_cusum_state:
  "cusum_state (snd (drift_append_loop state ts s)) = cusum_state s"
  by (induction ts arbitrary: s) (simp_all split: option.splits)

lemma drift_eval_loop_cusum_state:
  "cusum_state (snd (drift_eval_loop ct ts alerts s)) = cusum_state s"
  by (induction ts arbitrary: alerts s) (simp_all add: Let_def split: option.splits)

lemma drift_clear_loop_cusum_state:
  "cusum_state (snd (drift_clear_loop ts s)) = cusum_state s"
  by (induction ts arbitrary: s) (simp_all split: option.splits)

lemma check_drift_cs:
  assumes "check_drift state ct s = (r, s')"
  shows "cusum_state s' = cusum_state s"
proof -
  obtain e1 s1 where a: "drift_append_loop state (tanks s) s = (e1, s1)" by force
  obtain r2 s2 where b: "drift_eval_loop ct (tanks s1) [] s1 = (r2, s2)" by force
  obtain e3 s3 where c: "drift_clear_loop (tanks s2) s2 = (e3, s3)" by force
  have 1: "cusum_state s1 = cusum_state s"
    using drift_append_loop_cusum_state [of state "tanks s" s] a by simp
  have 2: "cusum_state s2 = cusum_state s1"
    using drift_eval_loop_cusum_state [of ct "tanks s1" "[]" s1] b by simp
  have 3: "cusum_state s3 = cusum_state s2"
    using drift_clear_loop_cusum_state [of "tanks s2" s2] c by simp
  show ?thesis
    using assms a b c 1 2 3
    by (auto simp: check_drift_def split: option.splits sum.splits bool.splits)
qed

lemma forward_alerts_det:
  "forward_alerts wa as m = (e, m') \<Longrightarrow> det m' = det m"
  by (induction as arbitrary: m) (auto split: option.splits)

lemma detect_and_forward_cs:
  "check_cusum state ct (det m) = (r, d2) \<Longrightarrow>
   cusum_state (det (detect_and_forward wa state ct m)) = cusum_state d2"
  unfolding detect_and_forward_def log_error_def
  by (auto split: prod.splits sum.splits option.splits
           dest!: forward_alerts_det check_invariants_cs check_drift_cs)

lemma detect_and_forward_nonneg:
  assumes "cusum_nonneg (det m)"
  shows "cusum_nonneg (det (detect_and_forward wa state ct m))"
proof -
  obtain r d2 where c: "check_cusum state ct (det m) = (r, d2)" by force
  have "cusum_nonneg d2" using check_cusum_nonneg [OF assms c] .
  then show ?thesis using detect_and_forward_cs [OF c] by (simp add: cusum_nonneg_def)
qed

lemma monitor_pass_nonneg:
  assumes "cusum_nonneg (det m)"
  shows "cusum_nonneg (det (monitor_pass wa current_time state m))"
proof (cases current_time)
  case None
  then show ?thesis using assms by (simp add: monitor_pass_def)
next
  case (Some ct)
  obtain r d1 where c: "check_cusum state ct (det m) = (r, d1)" by force
  have d1: "cusum_nonneg d1" using check_cusum_nonneg [OF assms c] .
  have "cusum_nonneg (det (detect_and_forward wa state ct (m\<lparr>det := d1\<rparr>)))"
    using detect_and_forward_nonneg [of "m\<lparr>det := d1\<rparr>"] d1 by simp
  then show ?thesis
    using Some assms c d1
    by (simp add: monitor_pass_def log_error_def split: sum.splits bool.splits)
qed

lemma monitor_run_nonneg:
  "cusum_nonneg (det m) \<Longrightarrow> cusum_nonneg (det (monitor_run wa polls m))"
  by (induction polls arbitrary: m) (auto simp: monitor_pass_nonneg)

lemma init_detector_cusum:
  "cusum_state (init_detector ts ps) t = Some st \<Longrightarrow>
   st = \<lparr>buffer = [], C_plus = 0, C_minus = 0, h_t = None, persist = None\<rparr>"
  by (auto simp: init_detector_def dest!: map_of_SomeD)

lemma init_nonneg: "cusum_nonneg (det (init_monitor ts ps))"
  by (auto simp: cusum_nonneg_def init_monitor_def dest!: init_detector_cusum)

text \<open>
  C9. The two CUSUM statistics of every tank start at 0, an update step of
  \<^verbatim>\<open>check_cusum\<close> keeps them non-negative, and so they are non-negative in every state
  the monitoring loop reaches from its initial state, for every sequence of polled
  iterations and snapshots and whatever the alert sink does.
\<close>

theorem cusum_statistics_never_negative:
  "(cusum_state (init_detector ts ps) t = Some st0 \<longrightarrow> C_plus st0 = 0 \<and> C_minus st0 = 0) \<and>
   (0 \<le> C_plus st \<and> 0 \<le> C_minus st \<longrightarrow>
      0 \<le> C_plus (fst (cusum_tank_step ka ct tank x st)) \<and>
      0 \<le> C_minus (fst (cusum_tank_step ka ct tank x st))) \<and>
   (cusum_state (det (monitor_run wa polls (init_monitor ts ps))) t = Some st1 \<longrightarrow>
      0 \<le> C_plus st1 \<and> 0 \<le> C_minus st1)"
proof (intro conjI impI)
  assume "cusum_state (init_detector ts ps) t = Some st0"
  from init_detector_cusum [OF this] show "C_plus st0 = 0" and "C_minus st0 = 0" by simp_all
next
  assume "0 \<le> C_plus st \<and> 0 \<le> C_minus st"
  then show "0 \<le> C_plus (fst (cusum_tank_step ka ct tank x st))"
    and "0 \<le> C_minus (fst (cusum_tank_step ka ct tank x st))"
    using cusum_tank_step_nonneg [of st ka ct tank x] by simp_all
next
  assume a: "cusum_state (det (monitor_run wa polls (init_monitor ts ps))) t = Some st1"
  have "cusum_nonneg (det (monitor_run wa polls (init_monitor ts ps)))"
    by (rule monitor_run_nonneg [OF init_nonneg])
  with a show "0 \<le> C_plus st1" and "0 \<le> C_minus st1"
    by (auto simp: cusum_nonneg_def)
qed

theorem cusum_statistics_never_negative_witness:
  "cusum_state (init_detector [''T1''] []) ''T1''
     = Some \<lparr>buffer = [], C_plus = 0, C_minus = 0, h_t = None, persist = None\<rparr> \<and>
   C_plus \<lparr>buffer = [], C_plus = 0, C_minus = 0, h_t = None, persist = None\<rparr> = 0 \<and>
   C_minus \<lparr>buffer = [], C_plus = 0, C_minus = 0, h_t = None, persist = None\<rparr> = 0 \<and>
   (0 \<le> C_plus \<lparr>buffer = replicate 144 1, C_plus = 0, C_minus = 1 / 2, h_t = None, persist = None\<rparr> \<and>
    0 \<le> C_minus \<lparr>buffer = replicate 144 1, C_plus = 0, C_minus = 1 / 2, h_t = None, persist = None\<rparr>) \<and>
   0 \<le> C_plus (fst (cusum_tank_step Map.empty 1 ''T1'' 3
           \<lparr>buffer = replicate 144 1, C_plus = 0, C_minus = 1 / 2, h_t = None, persist = None\<rparr>)) \<and>
   0 \<le> C_minus (fst (cusum_tank_step Map.empty 1 ''T1'' 3
           \<lparr>buffer = replicate 144 1, C_plus = 0, C_minus = 1 / 2, h_t = None, persist = None\<rparr>)) \<and>
   cusum_state (det (monitor_run write_alert [(Some 1, [''T1'' \<mapsto> 5])] (init_monitor [''T1''] []))) ''T1''
     = Some \<lparr>buffer = [5], C_plus = 0, C_minus = 0, h_t = None, persist = None\<rparr> \<and>
   0 \<le> C_plus \<lparr>buffer = [5], C_plus = 0, C_minus = 0, h_t = None, persist = None\<rparr> \<and>
   0 \<le> C_minus \<lparr>buffer = [5], C_plus = 0, C_minus = 0, h_t = None, persist = None\<rparr>"
proof -
  have 1: "cusum_state (init_detector [''T1''] []) ''T1''
     = Some \<lparr>buffer = [], C_plus = 0, C_minus = 0, h_t = None, persist = None\<rparr>"
    by (simp add: init_detector_def)
  have 2: "cusum_state (det (monitor_run write_alert [(Some 1, [''T1'' \<mapsto> 5])] (init_monitor [''T1''] []))) ''T1''
     = Some \<lparr>buffer = [5], C_plus = 0, C_minus = 0, h_t = None, persist = None\<rparr>"
    by (simp add: monitor_pass_def init_monitor_def init_detector_def check_cusum_def
      cusum_tank_step_def deque_append_def W_def dict_get_def)
  show ?thesis
    using 1 2 cusum_statistics_never_negative [of "[''T1'']" "[]" "''T1''"
      "\<lparr>buffer = [], C_plus = 0, C_minus = 0, h_t = None, persist = None\<rparr>"
      "\<lparr>buffer = replicate 144 1, C_plus = 0, C_minus = 1 / 2, h_t = None, persist = None\<rparr>"
      Map.empty 1 "''T1''" 3 write_alert "[(Some 1, [''T1'' \<mapsto> 5])]"
      "\<lparr>buffer = [5], C_plus = 0, C_minus = 0, h_t = None, persist = None\<rparr>"]
    by simp
qed

subsection \<open>Threshold, residual and sensitivity\<close>

text \<open>
  C8. With residual mode median and threshold mode mad, as the module sets them,
  \<^verbatim>\<open>compute_threshold_and_residual\<close> returns the current value minus the median of the
  window it is given; with the dispersion being 1.4826 times the mean absolute deviation of
  that window from its median, floored at 1e-6, the threshold is the dispersion times 3
  clamped to the interval from 0.8 to 10, and the sensitivity is the larger of 0.3 and the
  tank's gain times the dispersion (the gain defaults to 0.3 for a tank without one).
  \<^verbatim>\<open>check_cusum\<close> calls it on the full window as it is before the new sample is appended,
  and uses the three results for the threshold and the two statistics.
\<close>

theorem compute_threshold_and_residual_median_mad:
  "compute_threshold_and_residual ka buf x_t tank =
     (let dispersion =
            max (14826 / 10000 * mean_np (map (\<lambda>b. \<bar>b - median_np buf\<bar>) buf)) (1 / 1000000)
      in (x_t - median_np buf,
          min (max (3 * dispersion) (8 / 10)) 10,
          max (3 / 10) (dict_get ka tank (3 / 10) * dispersion))) \<and>
   (\<not> length (buffer st) < W \<longrightarrow>
      (let (residual, h, k_a) = compute_threshold_and_residual ka (buffer st) x_t tank;
           st' = fst (cusum_tank_step ka ct tank x_t st)
       in buffer st' = tl (buffer st) @ [x_t] \<and> h_t st' = Some h \<and>
          C_plus st' = max 0 (99 / 100 * C_plus st + residual - k_a) \<and>
          C_minus st' = max 0 (99 / 100 * C_minus st - residual - k_a)))"
proof (intro conjI impI)
  show "compute_threshold_and_residual ka buf x_t tank =
     (let dispersion =
            max (14826 / 10000 * mean_np (map (\<lambda>b. \<bar>b - median_np buf\<bar>) buf)) (1 / 1000000)
      in (x_t - median_np buf,
          min (max (3 * dispersion) (8 / 10)) 10,
          max (3 / 10) (dict_get ka tank (3 / 10) * dispersion)))"
    by (simp add: compute_threshold_and_residual_def residual_mode_def threshold_mode_def
        MIN_H_def MAX_H_def k_a_max_def Let_def)
next
  assume full: "\<not> length (buffer st) < W"
  obtain residual h k_a where c: "compute_threshold_and_residual ka (buffer st) x_t tank = (residual, h, k_a)"
    by (cases "compute_threshold_and_residual ka (buffer st) x_t tank")
  show "let (residual, h, k_a) = compute_threshold_and_residual ka (buffer st) x_t tank;
           st' = fst (cusum_tank_step ka ct tank x_t st)
       in buffer st' = tl (buffer st) @ [x_t] \<and> h_t st' = Some h \<and>
          C_plus st' = max 0 (99 / 100 * C_plus st + residual - k_a) \<and>
          C_minus st' = max 0 (99 / 100 * C_minus st - residual - k_a)"
    unfolding c using full
    by (simp add: cusum_tank_step_def c Let_def deque_append_def DECAY_def)
qed

subsection \<open>Windows of one repeated value followed by larger values\<close>

text \<open>Median and mean absolute deviation of such a window in closed form; they serve to
  evaluate the detector on concrete runs.\<close>

lemma median_np_replicate_append:
  assumes "\<forall>v \<in> set bs. a \<le> v" and "length bs < n"
  shows "median_np (replicate n a @ bs) = a"
proof -
  have 1: "(n + length bs) div 2 < n" using assms(2) by simp
  have 2: "(n + length bs) div 2 - 1 < n" using assms(2) by simp
  show ?thesis
    using assms(2) 1 2
    by (simp add: median_np_def sort_append_replicate_left assms(1) nth_append Let_def)
qed

lemma mean_np_zeros_append:
  "mean_np (replicate n 0 @ cs) = sum_list cs / real (n + length cs)"
  by (simp add: mean_np_def sum_list_replicate)

lemma compute_replicate_append:
  assumes "\<forall>v \<in> set bs. a \<le> v" and "length bs < n"
  shows "compute_threshold_and_residual ka (replicate n a @ bs) x tank =
     (let d = max (14826 / 10000 * (sum_list (map (\<lambda>b. \<bar>b - a\<bar>) bs) / real (n + length bs))) (1 / 1000000)
      in (x - a, min (max (3 * d) (8 / 10)) 10, max (3 / 10) (dict_get ka tank (3 / 10) * d)))"
  by (simp add: compute_threshold_and_residual_def residual_mode_def threshold_mode_def
        MIN_H_def MAX_H_def k_a_max_def Let_def median_np_replicate_append [OF assms]
        mean_np_zeros_append mult.commute)

lemma compute_replicate:
  assumes "0 < n"
  shows "compute_threshold_and_residual ka (replicate n a) x tank =
     (x - a, 8 / 10, max (3 / 10) (dict_get ka tank (3 / 10) * (1 / 1000000)))"
  using compute_replicate_append [of "[]" a n ka x tank] assms by simp

subsection \<open>One update of a tank whose window is full\<close>

lemma cusum_tank_step_stays_full:
  "\<not> length (buffer st) < W \<Longrightarrow> \<not> length (buffer (fst (cusum_tank_step ka ct tank x st))) < W"
  by (cases "buffer st")
     (simp_all add: cusum_tank_step_def deque_append_def W_def Let_def split: prod.splits)

lemma cusum_tank_step_detect:
  assumes "\<not> length (buffer st) < W"
  shows "\<exists>h. h_t (fst (cusum_tank_step ka ct tank x st)) = Some h \<and>
     (let st' = fst (cusum_tank_step ka ct tank x st);
          above = (C_plus st' > h \<or> C_minus st' > h);
          p = (if above then min (persist_count st + 1) 2 else 0)
      in above_threshold st' = above \<and> persist st' = Some p \<and>
         snd (cusum_tank_step ka ct tank x st) =
           (if p = 2 then [CUSUM_ALARM ct tank (C_plus st') (C_minus st') p] else []))"
  using assms
  by (auto simp add: cusum_tank_step_def Let_def persist_count_def above_threshold_def
        PERSISTENCE_THRESHOLD_def split: prod.splits)

lemma cusum_tank_step_persist:
  assumes "\<not> length (buffer st) < W"
  shows "persist_count (fst (cusum_tank_step ka ct tank x st)) =
           (if above_threshold (fst (cusum_tank_step ka ct tank x st))
            then min (persist_count st + 1) 2 else 0)"
    and "snd (cusum_tank_step ka ct tank x st) =
           (if persist_count (fst (cusum_tank_step ka ct tank x st)) = 2
            then [CUSUM_ALARM ct tank (C_plus (fst (cusum_tank_step ka ct tank x st)))
                    (C_minus (fst (cusum_tank_step ka ct tank x st))) 2]
            else [])"
  using cusum_tank_step_detect [OF assms, of ka ct tank x]
  by (auto simp: Let_def persist_count_def split: if_splits)


text \<open>Three successive updates of a window of 144 times 1 with the level 3, for the
  sensitivity 1.35.\<close>

lemma cusum_example_step1: "cusum_tank_step [''T1'' \<mapsto> 135 / 100] 1 ''T1'' 3
     \<lparr>buffer = replicate 144 1, C_plus = 0, C_minus = 0, h_t = None, persist = None\<rparr>
   = (\<lparr>buffer = replicate 143 1 @ [3], C_plus = 17 / 10, C_minus = 0, h_t = Some (8 / 10), persist = Some 1\<rparr>, [])"
  by (simp add: cusum_tank_step_def W_def compute_replicate dict_get_def DECAY_def
        PERSISTENCE_THRESHOLD_def deque_append_def Let_def)

lemma cusum_example_step2: "cusum_tank_step [''T1'' \<mapsto> 135 / 100] 2 ''T1'' 3
     \<lparr>buffer = replicate 143 1 @ [3], C_plus = 17 / 10, C_minus = 0, h_t = Some (8 / 10), persist = Some 1\<rparr>
   = (\<lparr>buffer = replicate 142 1 @ [3, 3], C_plus = 3383 / 1000, C_minus = 0, h_t = Some (8 / 10), persist = Some 2\<rparr>,
      [CUSUM_ALARM 2 ''T1'' (3383 / 1000) 0 2])"
  by (simp add: cusum_tank_step_def W_def compute_replicate_append dict_get_def DECAY_def
        PERSISTENCE_THRESHOLD_def deque_append_def Let_def)

lemma cusum_example_step3: "cusum_tank_step [''T1'' \<mapsto> 135 / 100] 3 ''T1'' 3
     \<lparr>buffer = replicate 142 1 @ [3, 3], C_plus = 3383 / 1000, C_minus = 0, h_t = Some (8 / 10), persist = Some 2\<rparr>
   = (\<lparr>buffer = replicate 141 1 @ [3, 3, 3], C_plus = 504917 / 100000, C_minus = 0, h_t = Some (8 / 10), persist = Some 2\<rparr>,
      [CUSUM_ALARM 3 ''T1'' (504917 / 100000) 0 2])"
  by (simp add: cusum_tank_step_def W_def compute_replicate_append dict_get_def DECAY_def
        PERSISTENCE_THRESHOLD_def deque_append_def Let_def)


text \<open>The second of these steps also instantiates the property of the threshold and the
  residual.\<close>

theorem compute_threshold_and_residual_median_mad_witness:
  "\<not> length (buffer \<lparr>buffer = replicate 143 1 @ [3], C_plus = 17 / 10, C_minus = 0,
         h_t = Some (8 / 10), persist = Some 1\<rparr>) < W \<and>
   compute_threshold_and_residual [''T1'' \<mapsto> 135 / 100] (replicate 143 1 @ [3]) 3 ''T1''
     = (2, 8 / 10, 3 / 10) \<and>
   fst (cusum_tank_step [''T1'' \<mapsto> 135 / 100] 2 ''T1'' 3
          \<lparr>buffer = replicate 143 1 @ [3], C_plus = 17 / 10, C_minus = 0,
            h_t = Some (8 / 10), persist = Some 1\<rparr>)
     = \<lparr>buffer = replicate 142 1 @ [3, 3], C_plus = 3383 / 1000, C_minus = 0,
         h_t = Some (8 / 10), persist = Some 2\<rparr>"
proof -
  let ?ka = "[''T1'' \<mapsto> 135 / 100 :: real]"
  let ?e = "\<lparr>buffer = replicate 143 1 @ [3], C_plus = 17 / 10, C_minus = 0,
         h_t = Some (8 / 10), persist = Some 1\<rparr>"
  have full: "\<not> length (buffer ?e) < W" by (simp add: W_def)
  have c: "compute_threshold_and_residual ?ka (replicate 143 1 @ [3]) 3 ''T1'' = (2, 8 / 10, 3 / 10)"
    by (simp add: compute_replicate_append dict_get_def)
  have s: "fst (cusum_tank_step ?ka 2 ''T1'' 3 ?e)
     = \<lparr>buffer = replicate 142 1 @ [3, 3], C_plus = 3383 / 1000, C_minus = 0,
         h_t = Some (8 / 10), persist = Some 2\<rparr>"
    unfolding cusum_example_step2 by simp
  from compute_threshold_and_residual_median_mad [of ?ka "replicate 143 1 @ [3]" 3 "''T1''" ?e 2] full c s
  show ?thesis by simp
qed

subsection \<open>The warm-up of the CUSUM window\<close>

lemma cusum_tank_step_warm:
  "length (buffer st) < W \<Longrightarrow>
   cusum_tank_step ka ct tank x st = (st\<lparr>buffer := buffer st @ [x]\<rparr>, [])"
  by (simp add: cusum_tank_step_def deque_append_def)

lemma check_cusum_char:
  assumes "distinct (tanks s)" and "\<forall>t \<in> set (tanks s). cusum_state s t \<noteq> None"
  shows "check_cusum state ct s =
     (Inr (concat (map (\<lambda>t. snd (cusum_tank_step (k_attack s) ct t (dict_get state t 0)
                                         (the (cusum_state s t)))) (tanks s))),
      s\<lparr>cusum_state := (\<lambda>t. if t \<in> set (tanks s)
           then Some (fst (cusum_tank_step (k_attack s) ct t (dict_get state t 0) (the (cusum_state s t))))
           else cusum_state s t)\<rparr>)"
  unfolding check_cusum_def using check_cusum_loop_char [OF assms, of state ct "[]"] by simp

lemma cusum_tank_step_alert_tank:
  "a \<in> set (snd (cusum_tank_step ka ct t x st)) \<Longrightarrow> alert_tank a = t"
  by (auto simp: cusum_tank_step_def Let_def split: prod.splits if_splits)

lemma init_detector_cusum_state:
  "cusum_state (init_detector ts ps) = (\<lambda>t. if t \<in> set ts
       then Some \<lparr>buffer = [], C_plus = 0, C_minus = 0, h_t = None, persist = None\<rparr> else None)"
  by (auto simp: init_detector_def fun_eq_iff map_of_map_restrict restrict_map_def)

lemma warm_state_Nil: "warm_state ts ps [] = init_detector ts ps"
proof -
  have "(\<lambda>t. if t \<in> set ts
       then Some \<lparr>buffer = map (\<lambda>c. dict_get (snd c) t 0) ([] :: (int \<times> snapshot) list),
                  C_plus = 0, C_minus = 0, h_t = None, persist = None\<rparr> else None)
        = cusum_state (init_detector ts ps)"
    by (simp add: init_detector_cusum_state cong: if_cong)
  then show ?thesis unfolding warm_state_def by simp
qed

lemma tanks_init [simp]: "tanks (init_detector ts ps) = ts"
  by (simp add: init_detector_def)

lemma check_cusum_calls_append:
  "check_cusum_calls (xs @ ys) s =
     (case check_cusum_calls xs s of (rs, s1) \<Rightarrow>
        (case check_cusum_calls ys s1 of (rs', s2) \<Rightarrow> (rs @ rs', s2)))"
  by (induction xs arbitrary: s) (auto split: prod.splits)

lemma check_cusum_warm_state:
  assumes "distinct ts" and "length calls < W"
  shows "check_cusum state ct (warm_state ts ps calls) = (Inr [], warm_state ts ps (calls @ [(ct, state)]))"
proof -
  let ?s = "warm_state ts ps calls"
  have t: "tanks ?s = ts" by (simp add: warm_state_def)
  have d: "distinct (tanks ?s)" using assms(1) t by simp
  have dom: "\<forall>t \<in> set (tanks ?s). cusum_state ?s t \<noteq> None" by (simp add: warm_state_def)
  have al: "concat (map (\<lambda>t. snd (cusum_tank_step (k_attack ?s) ct t (dict_get state t 0)
                                         (the (cusum_state ?s t)))) ts) = []"
    using assms(2) by (auto simp: warm_state_def cusum_tank_step_warm)
  show ?thesis
    unfolding check_cusum_char [OF d dom] t al
    using assms(2)
    by (auto simp: warm_state_def cusum_tank_step_warm fun_eq_iff)
qed

lemma check_cusum_calls_warm:
  assumes "distinct ts"
  shows "length calls \<le> W \<Longrightarrow>
     check_cusum_calls calls (init_detector ts ps) = (replicate (length calls) (Inr []), warm_state ts ps calls)"
proof (induction calls rule: rev_induct)
  case Nil
  then show ?case by (simp add: warm_state_Nil)
next
  case (snoc c calls)
  obtain ct state where c: "c = (ct, state)" by (cases c)
  have l: "length calls < W" using snoc.prems by simp
  have ih: "check_cusum_calls calls (init_detector ts ps) = (replicate (length calls) (Inr []), warm_state ts ps calls)"
    using snoc.IH l by simp
  show ?case
    unfolding c check_cusum_calls_append ih
    by (simp add: check_cusum_warm_state [OF assms l] replicate_append_same)
qed

lemma warm_state_entry:
  "t \<in> set ts \<Longrightarrow> cusum_state (warm_state ts ps calls) t =
     Some \<lparr>buffer = map (\<lambda>c. dict_get (snd c) t 0) calls, C_plus = 0, C_minus = 0,
            h_t = None, persist = None\<rparr>"
  by (simp add: warm_state_def)

lemma cusum_tank_step_first_detection:
  assumes "\<not> length (buffer st) < W" and "persist st = None"
  shows "snd (cusum_tank_step ka ct tank x st) = []"
    and "h_t (fst (cusum_tank_step ka ct tank x st)) \<noteq> None"
    and "persist (fst (cusum_tank_step ka ct tank x st)) \<noteq> None"
  using assms
  by (auto simp add: cusum_tank_step_def Let_def PERSISTENCE_THRESHOLD_def split: prod.splits)


text \<open>
  C5. While a tank's window holds fewer than \<open>W = 144\<close> samples, a call of \<^verbatim>\<open>check_cusum\<close>
  appends the current value to the window, leaves \<open>C_plus\<close>, \<open>C_minus\<close>, \<open>h_t\<close> and the
  persistence counter of that tank as they are, and returns no alert for that tank. From the
  initial state, the first \<open>W\<close> calls therefore return no alert at all and only fill the
  windows, and the call number \<open>W + 1\<close> is the first that runs the detection step (it
  writes \<open>h_t\<close> and the counter).
\<close>

theorem cusum_warm_up_gate:
  assumes "distinct (tanks s)" and "\<forall>t \<in> set (tanks s). cusum_state s t \<noteq> None"
    and "tank \<in> set (tanks s)" and "cusum_state s tank = Some st" and "length (buffer st) < W"
  shows "(\<exists>alerts. fst (check_cusum state ct s) = Inr alerts \<and> (\<forall>a \<in> set alerts. alert_tank a \<noteq> tank)) \<and>
         cusum_state (snd (check_cusum state ct s)) tank
           = Some (st\<lparr>buffer := buffer st @ [dict_get state tank 0]\<rparr>) \<and>
         (tanks s = ts \<and> length calls \<le> W \<longrightarrow>
            fst (check_cusum_calls calls (init_detector ts ps)) = replicate (length calls) (Inr []) \<and>
            cusum_state (snd (check_cusum_calls calls (init_detector ts ps))) tank
              = Some \<lparr>buffer = map (\<lambda>c. dict_get (snd c) tank 0) calls, C_plus = 0, C_minus = 0,
                       h_t = None, persist = None\<rparr>) \<and>
         (tanks s = ts \<and> length calls = W \<longrightarrow>
            (\<exists>e. cusum_state (snd (check_cusum_calls (calls @ [(ct, state)]) (init_detector ts ps))) tank
                   = Some e \<and> h_t e \<noteq> None \<and> persist e \<noteq> None))"
proof (intro conjI impI)
  have "\<forall>a \<in> set (concat (map (\<lambda>t. snd (cusum_tank_step (k_attack s) ct t (dict_get state t 0)
                                         (the (cusum_state s t)))) (tanks s))). alert_tank a \<noteq> tank"
  proof
    fix a
    assume "a \<in> set (concat (map (\<lambda>t. snd (cusum_tank_step (k_attack s) ct t (dict_get state t 0)
                                         (the (cusum_state s t)))) (tanks s)))"
    then obtain y where y: "y \<in> set (tanks s)"
      and a: "a \<in> set (snd (cusum_tank_step (k_attack s) ct y (dict_get state y 0) (the (cusum_state s y))))"
      by auto
    have ay: "alert_tank a = y" using cusum_tank_step_alert_tank [OF a] .
    show "alert_tank a \<noteq> tank"
    proof
      assume "alert_tank a = tank"
      with ay a assms(4,5) show False by (simp add: cusum_tank_step_warm)
    qed
  qed
  then show "\<exists>alerts. fst (check_cusum state ct s) = Inr alerts \<and> (\<forall>a \<in> set alerts. alert_tank a \<noteq> tank)"
    unfolding check_cusum_char [OF assms(1,2)] by simp
  show "cusum_state (snd (check_cusum state ct s)) tank
           = Some (st\<lparr>buffer := buffer st @ [dict_get state tank 0]\<rparr>)"
    unfolding check_cusum_char [OF assms(1,2)]
    using assms(3,4,5) by (simp add: cusum_tank_step_warm)
next
  assume h: "tanks s = ts \<and> length calls \<le> W"
  then have d: "distinct ts" and m: "tank \<in> set ts" and l: "length calls \<le> W" using assms by auto
  show "fst (check_cusum_calls calls (init_detector ts ps)) = replicate (length calls) (Inr [])"
    by (simp add: check_cusum_calls_warm [OF d l])
  show "cusum_state (snd (check_cusum_calls calls (init_detector ts ps))) tank
              = Some \<lparr>buffer = map (\<lambda>c. dict_get (snd c) tank 0) calls, C_plus = 0, C_minus = 0,
                       h_t = None, persist = None\<rparr>"
    by (simp add: check_cusum_calls_warm [OF d l] warm_state_entry [OF m])
next
  assume h: "tanks s = ts \<and> length calls = W"
  then have d: "distinct ts" and m: "tank \<in> set ts" and l: "length calls \<le> W" and l': "length calls = W"
    using assms by auto
  let ?w = "warm_state ts ps calls"
  let ?e = "\<lparr>buffer = map (\<lambda>c. dict_get (snd c) tank 0) calls, C_plus = 0, C_minus = 0,
                       h_t = None, persist = None\<rparr>"
  have t: "tanks ?w = ts" by (simp add: warm_state_def)
  have dw: "distinct (tanks ?w)" using d t by simp
  have dom: "\<forall>t \<in> set (tanks ?w). cusum_state ?w t \<noteq> None" by (simp add: warm_state_def)
  have full: "\<not> length (buffer ?e) < W" using l' by simp
  have "cusum_state (snd (check_cusum state ct ?w)) tank
          = Some (fst (cusum_tank_step (k_attack ?w) ct tank (dict_get state tank 0) ?e))"
    unfolding check_cusum_char [OF dw dom] using m t by (simp add: warm_state_entry)
  moreover have "snd (check_cusum_calls (calls @ [(ct, state)]) (init_detector ts ps))
      = snd (check_cusum state ct ?w)"
    by (simp add: check_cusum_calls_append check_cusum_calls_warm [OF d l] split: prod.splits)
  ultimately show "\<exists>e. cusum_state (snd (check_cusum_calls (calls @ [(ct, state)]) (init_detector ts ps))) tank
                   = Some e \<and> h_t e \<noteq> None \<and> persist e \<noteq> None"
    using cusum_tank_step_first_detection(2,3) [OF full, of "k_attack ?w" ct tank "dict_get state tank 0"]
    by simp
qed

theorem cusum_warm_up_gate_witness:
  "distinct (tanks (init_detector [''T1''] [])) \<and>
   ''T1'' \<in> set (tanks (init_detector [''T1''] [])) \<and>
   cusum_state (init_detector [''T1''] []) ''T1''
     = Some \<lparr>buffer = [], C_plus = 0, C_minus = 0, h_t = None, persist = None\<rparr> \<and>
   length (buffer \<lparr>buffer = [], C_plus = 0, C_minus = 0, h_t = None, persist = None\<rparr>) < W \<and>
   tanks (init_detector [''T1''] []) = [''T1''] \<and>
   length (map (\<lambda>i. (int i, [''T1'' \<mapsto> 1])) [1..<145]) \<le> W \<and>
   length (map (\<lambda>i. (int i, [''T1'' \<mapsto> 1])) [1..<145]) = W \<and>
   cusum_state (snd (check_cusum [''T1'' \<mapsto> 2] 145 (init_detector [''T1''] []))) ''T1''
     = Some \<lparr>buffer = [2], C_plus = 0, C_minus = 0, h_t = None, persist = None\<rparr> \<and>
   fst (check_cusum_calls (map (\<lambda>i. (int i, [''T1'' \<mapsto> 1])) [1..<145]) (init_detector [''T1''] []))
     = replicate 144 (Inr []) \<and>
   (\<exists>e. cusum_state (snd (check_cusum_calls
            (map (\<lambda>i. (int i, [''T1'' \<mapsto> 1])) [1..<145] @ [(145, [''T1'' \<mapsto> 2])])
            (init_detector [''T1''] []))) ''T1'' = Some e \<and> h_t e \<noteq> None \<and> persist e \<noteq> None)"
proof -
  let ?S = "init_detector [''T1''] []"
  let ?E = "\<lparr>buffer = [], C_plus = 0, C_minus = 0, h_t = None, persist = None\<rparr> :: cusum_tank"
  let ?calls = "map (\<lambda>i. (int i, [''T1'' \<mapsto> 1 :: real])) [1..<145]"
  have h1: "distinct (tanks ?S)" by (simp add: init_detector_def)
  have h2: "\<forall>t \<in> set (tanks ?S). cusum_state ?S t \<noteq> None" by (simp add: init_detector_def)
  have h3: "''T1'' \<in> set (tanks ?S)" by (simp add: init_detector_def)
  have h4: "cusum_state ?S ''T1'' = Some ?E" by (simp add: init_detector_def)
  have h5: "length (buffer ?E) < W" by (simp add: W_def)
  have h6: "tanks ?S = [''T1'']" by (simp add: init_detector_def)
  have h7: "length ?calls = W" by (simp add: W_def)
  note t = cusum_warm_up_gate [OF h1 h2 h3 h4 h5, of "[''T1'' \<mapsto> 2]" 145 "[''T1'']" ?calls "[]"]
  from t h6 h7 have c1: "cusum_state (snd (check_cusum [''T1'' \<mapsto> 2] 145 ?S)) ''T1''
     = Some \<lparr>buffer = [2], C_plus = 0, C_minus = 0, h_t = None, persist = None\<rparr>"
    by (simp add: dict_get_def)
  from t h6 h7 have c2: "fst (check_cusum_calls ?calls ?S) = replicate 144 (Inr [])"
    by (simp add: W_def)
  from t h6 h7 have c3: "\<exists>e. cusum_state (snd (check_cusum_calls (?calls @ [(145, [''T1'' \<mapsto> 2])]) ?S)) ''T1''
      = Some e \<and> h_t e \<noteq> None \<and> persist e \<noteq> None"
    by blast
  from h1 h3 h4 h5 h6 h7 c1 c2 c3 show ?thesis by (intro conjI) simp_all
qed

subsection \<open>The persistence counter of the CUSUM alarm\<close>

text \<open>What a call of \<^verbatim>\<open>check_cusum\<close> does to one tank, when the tanks are distinct and each
  has an entry: the tank's entry and the tank's alerts are those of one update.\<close>

lemma check_cusum_tank:
  assumes d: "distinct (tanks s)" and dom: "\<forall>t \<in> set (tanks s). cusum_state s t \<noteq> None"
    and tk: "tank \<in> set (tanks s)" and st: "cusum_state s tank = Some st"
    and c: "check_cusum state ct s = (r, s')"
  shows "\<exists>alerts. r = Inr alerts \<and>
           filter (\<lambda>a. alert_tank a = tank) alerts
             = snd (cusum_tank_step (k_attack s) ct tank (dict_get state tank 0) st)"
    and "cusum_state s' tank = Some (fst (cusum_tank_step (k_attack s) ct tank (dict_get state tank 0) st))"
    and "tanks s' = tanks s" and "k_attack s' = k_attack s"
    and "\<forall>t \<in> set (tanks s'). cusum_state s' t \<noteq> None"
proof -
  note ch = check_cusum_char [OF d dom, of state ct]
  have f: "filter (\<lambda>a. alert_tank a = tank)
        (concat (map (\<lambda>t. snd (cusum_tank_step (k_attack s) ct t (dict_get state t 0)
                                         (the (cusum_state s t)))) (tanks s)))
      = snd (cusum_tank_step (k_attack s) ct tank (dict_get state tank 0) (the (cusum_state s tank)))"
    by (rule filter_concat_tank [OF d tk]) (auto dest: cusum_tank_step_alert_tank)
  show "\<exists>alerts. r = Inr alerts \<and>
           filter (\<lambda>a. alert_tank a = tank) alerts
             = snd (cusum_tank_step (k_attack s) ct tank (dict_get state tank 0) st)"
    using c ch f st by auto
  show "cusum_state s' tank = Some (fst (cusum_tank_step (k_attack s) ct tank (dict_get state tank 0) st))"
    using c ch tk st by auto
  show "tanks s' = tanks s" "k_attack s' = k_attack s" using c ch by auto
  show "\<forall>t \<in> set (tanks s'). cusum_state s' t \<noteq> None" using c ch by auto
qed


text \<open>
  C4. For a tank whose window is full, a call of \<^verbatim>\<open>check_cusum\<close> raises nothing and sets the
  tank's persistence counter to the old counter plus one, clamped at 2, when \<open>C_plus > h_t\<close> or
  \<open>C_minus > h_t\<close> holds of the entry the call has stored, and to 0 otherwise; the alerts the
  call returns for the tank are one CUSUM_ALARM carrying the stored \<open>C_plus\<close>, \<open>C_minus\<close> and
  the count when the counter is 2, and none otherwise. So with the counter at 0 and the
  condition true after each of three successive calls, the first call returns no alert for the
  tank, the second returns the alarm, and the third returns it again, the counter staying at 2.
  The tanks are distinct and each has an entry, as \<^verbatim>\<open>monitor\<close> builds them.
\<close>

theorem cusum_persistence_counter:
  assumes d: "distinct (tanks s)" and dom: "\<forall>t \<in> set (tanks s). cusum_state s t \<noteq> None"
    and tk: "tank \<in> set (tanks s)" and st: "cusum_state s tank = Some st0"
    and full: "\<not> length (buffer st0) < W"
    and c1: "check_cusum state1 ct1 s = (r1, s1)"
    and c2: "check_cusum state2 ct2 s1 = (r2, s2)"
    and c3: "check_cusum state3 ct3 s2 = (r3, s3)"
  shows "\<exists>a1 a2 a3 st1 st2 st3.
           r1 = Inr a1 \<and> r2 = Inr a2 \<and> r3 = Inr a3 \<and>
           cusum_state s1 tank = Some st1 \<and> cusum_state s2 tank = Some st2 \<and>
           cusum_state s3 tank = Some st3 \<and>
           persist_count st1 = (if above_threshold st1 then min (persist_count st0 + 1) 2 else 0) \<and>
           filter (\<lambda>a. alert_tank a = tank) a1
             = (if persist_count st1 = 2 then [CUSUM_ALARM ct1 tank (C_plus st1) (C_minus st1) 2] else []) \<and>
           (persist_count st0 = 0 \<and> above_threshold st1 \<and> above_threshold st2 \<and> above_threshold st3 \<longrightarrow>
              filter (\<lambda>a. alert_tank a = tank) a1 = [] \<and>
              filter (\<lambda>a. alert_tank a = tank) a2 = [CUSUM_ALARM ct2 tank (C_plus st2) (C_minus st2) 2] \<and>
              filter (\<lambda>a. alert_tank a = tank) a3 = [CUSUM_ALARM ct3 tank (C_plus st3) (C_minus st3) 2] \<and>
              persist_count st3 = 2)"
proof -
  let ?st1 = "fst (cusum_tank_step (k_attack s) ct1 tank (dict_get state1 tank 0) st0)"
  let ?st2 = "fst (cusum_tank_step (k_attack s) ct2 tank (dict_get state2 tank 0) ?st1)"
  let ?st3 = "fst (cusum_tank_step (k_attack s) ct3 tank (dict_get state3 tank 0) ?st2)"
  note t1 = check_cusum_tank [OF d dom tk st c1]
  have d1: "distinct (tanks s1)" and tk1: "tank \<in> set (tanks s1)" using t1(3) d tk by simp_all
  note t2 = check_cusum_tank [OF d1 t1(5) tk1 t1(2) c2, unfolded t1(4)]
  have d2: "distinct (tanks s2)" and tk2: "tank \<in> set (tanks s2)" using t2(3) d1 tk1 by simp_all
  note t3 = check_cusum_tank [OF d2 t2(5) tk2 t2(2) c3, unfolded t2(4) t1(4)]
  obtain a1 where a1: "r1 = Inr a1"
    "filter (\<lambda>a. alert_tank a = tank) a1 = snd (cusum_tank_step (k_attack s) ct1 tank (dict_get state1 tank 0) st0)"
    using t1(1) by auto
  obtain a2 where a2: "r2 = Inr a2"
    "filter (\<lambda>a. alert_tank a = tank) a2 = snd (cusum_tank_step (k_attack s) ct2 tank (dict_get state2 tank 0) ?st1)"
    using t2(1) by auto
  obtain a3 where a3: "r3 = Inr a3"
    "filter (\<lambda>a. alert_tank a = tank) a3 = snd (cusum_tank_step (k_attack s) ct3 tank (dict_get state3 tank 0) ?st2)"
    using t3(1) by auto
  have f1: "\<not> length (buffer ?st1) < W" by (rule cusum_tank_step_stays_full [OF full])
  have f2: "\<not> length (buffer ?st2) < W" by (rule cusum_tank_step_stays_full [OF f1])
  note p1 = cusum_tank_step_persist [OF full, of "k_attack s" ct1 tank "dict_get state1 tank 0"]
  note p2 = cusum_tank_step_persist [OF f1, of "k_attack s" ct2 tank "dict_get state2 tank 0"]
  note p3 = cusum_tank_step_persist [OF f2, of "k_attack s" ct3 tank "dict_get state3 tank 0"]
  have "r1 = Inr a1 \<and> r2 = Inr a2 \<and> r3 = Inr a3 \<and>
           cusum_state s1 tank = Some ?st1 \<and> cusum_state s2 tank = Some ?st2 \<and>
           cusum_state s3 tank = Some ?st3 \<and>
           persist_count ?st1 = (if above_threshold ?st1 then min (persist_count st0 + 1) 2 else 0) \<and>
           filter (\<lambda>a. alert_tank a = tank) a1
             = (if persist_count ?st1 = 2 then [CUSUM_ALARM ct1 tank (C_plus ?st1) (C_minus ?st1) 2] else []) \<and>
           (persist_count st0 = 0 \<and> above_threshold ?st1 \<and> above_threshold ?st2 \<and> above_threshold ?st3 \<longrightarrow>
              filter (\<lambda>a. alert_tank a = tank) a1 = [] \<and>
              filter (\<lambda>a. alert_tank a = tank) a2 = [CUSUM_ALARM ct2 tank (C_plus ?st2) (C_minus ?st2) 2] \<and>
              filter (\<lambda>a. alert_tank a = tank) a3 = [CUSUM_ALARM ct3 tank (C_plus ?st3) (C_minus ?st3) 2] \<and>
              persist_count ?st3 = 2)"
    unfolding a1(2) a2(2) a3(2)
    using a1(1) a2(1) a3(1) t1(2) t2(2) t3(2) p1 p2 p3 by simp
  then show ?thesis by blast
qed

text \<open>The facts that evaluate a call of \<^verbatim>\<open>check_cusum\<close> on a concrete state.\<close>

lemmas cusum_eval =
  check_cusum_def cusum_tank_step_def compute_replicate_append compute_replicate
  deque_append_def dict_get_def W_def DECAY_def PERSISTENCE_THRESHOLD_def init_detector_def Let_def

text \<open>The witness is one tank whose window holds 144 times 1, and three calls with the level
  3: the statistics after the calls are 1.7, 3.383 and 5.04917 against the threshold 0.8, the
  first call returns no alert, the second and the third return the alarm.\<close>

theorem cusum_persistence_counter_witness:
  "distinct (tanks ((init_detector [''T1''] [])\<lparr>cusum_state := [''T1'' \<mapsto>
      \<lparr>buffer = replicate 144 1, C_plus = 0, C_minus = 0, h_t = None, persist = None\<rparr>]\<rparr>)) \<and>
   ''T1'' \<in> set (tanks ((init_detector [''T1''] [])\<lparr>cusum_state := [''T1'' \<mapsto>
      \<lparr>buffer = replicate 144 1, C_plus = 0, C_minus = 0, h_t = None, persist = None\<rparr>]\<rparr>)) \<and>
   \<not> length (buffer \<lparr>buffer = replicate 144 1, C_plus = 0, C_minus = 0, h_t = None, persist = None\<rparr>) < W \<and>
   persist_count \<lparr>buffer = replicate 144 1, C_plus = 0, C_minus = 0, h_t = None, persist = None\<rparr> = 0 \<and>
   check_cusum [''T1'' \<mapsto> 3] 1 ((init_detector [''T1''] [])\<lparr>cusum_state := [''T1'' \<mapsto>
      \<lparr>buffer = replicate 144 1, C_plus = 0, C_minus = 0, h_t = None, persist = None\<rparr>]\<rparr>)
     = (Inr [], (init_detector [''T1''] [])\<lparr>cusum_state := [''T1'' \<mapsto>
      \<lparr>buffer = replicate 143 1 @ [3], C_plus = 17 / 10, C_minus = 0, h_t = Some (8 / 10), persist = Some 1\<rparr>]\<rparr>) \<and>
   check_cusum [''T1'' \<mapsto> 3] 2 ((init_detector [''T1''] [])\<lparr>cusum_state := [''T1'' \<mapsto>
      \<lparr>buffer = replicate 143 1 @ [3], C_plus = 17 / 10, C_minus = 0, h_t = Some (8 / 10), persist = Some 1\<rparr>]\<rparr>)
     = (Inr [CUSUM_ALARM 2 ''T1'' (3383 / 1000) 0 2], (init_detector [''T1''] [])\<lparr>cusum_state := [''T1'' \<mapsto>
      \<lparr>buffer = replicate 142 1 @ [3, 3], C_plus = 3383 / 1000, C_minus = 0, h_t = Some (8 / 10), persist = Some 2\<rparr>]\<rparr>) \<and>
   check_cusum [''T1'' \<mapsto> 3] 3 ((init_detector [''T1''] [])\<lparr>cusum_state := [''T1'' \<mapsto>
      \<lparr>buffer = replicate 142 1 @ [3, 3], C_plus = 3383 / 1000, C_minus = 0, h_t = Some (8 / 10), persist = Some 2\<rparr>]\<rparr>)
     = (Inr [CUSUM_ALARM 3 ''T1'' (504917 / 100000) 0 2], (init_detector [''T1''] [])\<lparr>cusum_state := [''T1'' \<mapsto>
      \<lparr>buffer = replicate 141 1 @ [3, 3, 3], C_plus = 504917 / 100000, C_minus = 0, h_t = Some (8 / 10), persist = Some 2\<rparr>]\<rparr>) \<and>
   above_threshold \<lparr>buffer = replicate 143 1 @ [3], C_plus = 17 / 10, C_minus = 0, h_t = Some (8 / 10), persist = Some 1\<rparr> \<and>
   above_threshold \<lparr>buffer = replicate 142 1 @ [3, 3], C_plus = 3383 / 1000, C_minus = 0, h_t = Some (8 / 10), persist = Some 2\<rparr> \<and>
   above_threshold \<lparr>buffer = replicate 141 1 @ [3, 3, 3], C_plus = 504917 / 100000, C_minus = 0, h_t = Some (8 / 10), persist = Some 2\<rparr> \<and>
   persist_count \<lparr>buffer = replicate 141 1 @ [3, 3, 3], C_plus = 504917 / 100000, C_minus = 0, h_t = Some (8 / 10), persist = Some 2\<rparr> = 2"
proof -
  let ?e0 = "\<lparr>buffer = replicate 144 1, C_plus = 0, C_minus = 0, h_t = None, persist = None\<rparr>"
  let ?e1 = "\<lparr>buffer = replicate 143 1 @ [3], C_plus = 17 / 10, C_minus = 0, h_t = Some (8 / 10), persist = Some 1\<rparr>"
  let ?e2 = "\<lparr>buffer = replicate 142 1 @ [3, 3], C_plus = 3383 / 1000, C_minus = 0, h_t = Some (8 / 10), persist = Some 2\<rparr>"
  let ?e3 = "\<lparr>buffer = replicate 141 1 @ [3, 3, 3], C_plus = 504917 / 100000, C_minus = 0, h_t = Some (8 / 10), persist = Some 2\<rparr>"
  let ?S = "\<lambda>e. (init_detector [''T1''] [])\<lparr>cusum_state := [''T1'' \<mapsto> e]\<rparr>"
  let ?st = "[''T1'' \<mapsto> 3 :: real]"
  have h1: "distinct (tanks (?S ?e0))" by (simp add: init_detector_def)
  have h2: "\<forall>t \<in> set (tanks (?S ?e0)). cusum_state (?S ?e0) t \<noteq> None" by (simp add: init_detector_def)
  have h3: "''T1'' \<in> set (tanks (?S ?e0))" by (simp add: init_detector_def)
  have h4: "cusum_state (?S ?e0) ''T1'' = Some ?e0" by simp
  have h5: "\<not> length (buffer ?e0) < W" by (simp add: W_def)
  have c1: "check_cusum ?st 1 (?S ?e0) = (Inr [], ?S ?e1)"
    by (simp add: cusum_eval)
  have c2: "check_cusum ?st 2 (?S ?e1) = (Inr [CUSUM_ALARM 2 ''T1'' (3383 / 1000) 0 2], ?S ?e2)"
    by (simp add: cusum_eval)
  have c3: "check_cusum ?st 3 (?S ?e2) = (Inr [CUSUM_ALARM 3 ''T1'' (504917 / 100000) 0 2], ?S ?e3)"
    by (simp add: cusum_eval)
  have hyp: "persist_count ?e0 = 0 \<and> above_threshold ?e1 \<and> above_threshold ?e2 \<and> above_threshold ?e3"
    by (simp add: persist_count_def above_threshold_def)
  have "persist_count ?e3 = 2"
    using cusum_persistence_counter [OF h1 h2 h3 h4 h5 c1 c2 c3] hyp by auto
  with h1 h3 h5 c1 c2 c3 hyp show ?thesis by (intro conjI) simp_all
qed

subsection \<open>The invariant checker, tank by tank\<close>

lemma invariant_tank_step_eq:
  "invariant_tank_step po ct tank level s =
     (case inv_prev s tank of
        None \<Rightarrow> ([], s\<lparr>inv_prev := (inv_prev s)(tank \<mapsto> level)\<rparr>)
      | Some pv \<Rightarrow>
          (let violated = ((po \<and> float_sub level pv < - DEAD_BAND) \<or>
                           (\<not> po \<and> float_sub level pv > DEAD_BAND));
               c = (if violated then dict_get (inv_badcnt s) tank 0 + 1 else 0)
           in ((if c \<ge> 2 then [INVARIANT_VIOLATION ct tank level pv c] else []) @
               (if level = 0 then [TANK_EMPTY ct tank] else []),
               s\<lparr>inv_prev := (inv_prev s)(tank \<mapsto> level),
                 inv_badcnt := (inv_badcnt s)(tank \<mapsto> (if c \<ge> 2 then 0 else c))\<rparr>)))"
  by (simp add: invariant_tank_step_def Let_def INV_PERSIST_def split: option.splits)

lemma invariant_tank_step_alert_tank:
  "a \<in> set (fst (invariant_tank_step po ct tank level s)) \<Longrightarrow> alert_tank a = tank"
  by (auto simp: invariant_tank_step_eq Let_def split: option.splits if_splits)

lemma invariant_tank_step_other:
  "t \<noteq> tank \<Longrightarrow>
   inv_prev (snd (invariant_tank_step po ct tank level s)) t = inv_prev s t \<and>
   inv_badcnt (snd (invariant_tank_step po ct tank level s)) t = inv_badcnt s t"
  by (simp add: invariant_tank_step_eq Let_def split: option.splits)

lemma invariant_tank_step_cong:
  "inv_prev s tank = inv_prev s' tank \<Longrightarrow> inv_badcnt s tank = inv_badcnt s' tank \<Longrightarrow>
   fst (invariant_tank_step po ct tank level s) = fst (invariant_tank_step po ct tank level s') \<and>
   inv_prev (snd (invariant_tank_step po ct tank level s)) tank
     = inv_prev (snd (invariant_tank_step po ct tank level s')) tank \<and>
   inv_badcnt (snd (invariant_tank_step po ct tank level s)) tank
     = inv_badcnt (snd (invariant_tank_step po ct tank level s')) tank"
  by (simp add: invariant_tank_step_eq Let_def dict_get_def split: option.splits)

lemma check_invariants_loop_tank:
  "distinct ts \<Longrightarrow>
   filter (\<lambda>a. alert_tank a = tank) (fst (check_invariants_loop state ct po ts alerts s)) =
     filter (\<lambda>a. alert_tank a = tank) alerts @
       (if tank \<in> set ts then fst (invariant_tank_step po ct tank (dict_get state tank 0) s) else []) \<and>
   inv_prev (snd (check_invariants_loop state ct po ts alerts s)) tank =
     (if tank \<in> set ts then inv_prev (snd (invariant_tank_step po ct tank (dict_get state tank 0) s)) tank
      else inv_prev s tank) \<and>
   inv_badcnt (snd (check_invariants_loop state ct po ts alerts s)) tank =
     (if tank \<in> set ts then inv_badcnt (snd (invariant_tank_step po ct tank (dict_get state tank 0) s)) tank
      else inv_badcnt s tank)"
proof (induction ts arbitrary: alerts s)
  case Nil
  then show ?case by simp
next
  case (Cons a ts)
  obtain new s' where step: "invariant_tank_step po ct a (dict_get state a 0) s = (new, s')"
    by (cases "invariant_tank_step po ct a (dict_get state a 0) s")
  have d: "distinct ts" and na: "a \<notin> set ts" using Cons.prems by auto
  note ih = Cons.IH [OF d, of "alerts @ new" s']
  have new_tank: "\<forall>x \<in> set new. alert_tank x = a"
    using invariant_tank_step_alert_tank [of _ po ct a "dict_get state a 0" s] step by simp
  show ?case
  proof (cases "a = tank")
    case True
    have "filter (\<lambda>x. alert_tank x = tank) new = new"
      using new_tank True by (simp add: filter_id_conv)
    then show ?thesis
      using ih na True step by simp
  next
    case False
    have f: "filter (\<lambda>x. alert_tank x = tank) new = []"
      using new_tank False by (auto simp: filter_empty_conv)
    have same: "inv_prev s' tank = inv_prev s tank \<and> inv_badcnt s' tank = inv_badcnt s tank"
      using invariant_tank_step_other [of tank a po ct "dict_get state a 0" s] False step by simp
    note c = invariant_tank_step_cong [of s' tank s po ct "dict_get state tank 0"]
    show ?thesis
      using ih False step f same c by simp
  qed
qed

lemma check_invariants_tank:
  assumes "distinct (tanks s)" and "tank \<in> set (tanks s)"
  shows "filter (\<lambda>a. alert_tank a = tank) (fst (check_invariants state ct s)) =
           fst (invariant_tank_step (pump_on_of state (pumps s)) ct tank (dict_get state tank 0) s)"
    and "inv_prev (snd (check_invariants state ct s)) tank =
           inv_prev (snd (invariant_tank_step (pump_on_of state (pumps s)) ct tank (dict_get state tank 0) s)) tank"
    and "inv_badcnt (snd (check_invariants state ct s)) tank =
           inv_badcnt (snd (invariant_tank_step (pump_on_of state (pumps s)) ct tank (dict_get state tank 0) s)) tank"
  using check_invariants_loop_tank [OF assms(1), of tank state ct "pump_on_of state (pumps s)" "[]" s] assms(2)
  by (simp_all add: check_invariants_def)

lemma filter_conj_tank:
  "filter (\<lambda>a. alert_tank a = tank \<and> P a) xs = filter P (filter (\<lambda>a. alert_tank a = tank) xs)"
  by (induction xs) auto


text \<open>
  C6. For a tank with a recorded previous level, a call of \<^verbatim>\<open>check_invariants\<close> counts a
  violation exactly when the pump is on and \<open>delta < - DEAD_BAND\<close>, or the pump is off and
  \<open>delta > DEAD_BAND\<close>, both strictly, where \<open>delta\<close> is the float difference of the level
  and the previous level and \<open>DEAD_BAND\<close> is the double that the literal \<^verbatim>\<open>0.10\<close> denotes: a
  \<open>delta\<close> equal to it in absolute value is no violation. The counter becomes the old counter plus one on a violation and 0 otherwise;
  when it reaches 2, exactly one INVARIANT_VIOLATION alert with the level, the previous level
  and the count is emitted for the tank and the stored counter is reset to 0. A stored
  counter that is 0 or 1 stays 0 or 1, so the alert is emitted exactly at a count of 2.
\<close>

theorem invariant_violation_counter:
  assumes "distinct (tanks s)" and "tank \<in> set (tanks s)" and "inv_prev s tank = Some pv"
  shows "let level = dict_get state tank 0;
             pump_on = pump_on_of state (pumps s);
             delta = float_sub level pv;
             violated = ((pump_on \<and> delta < - DEAD_BAND) \<or> (\<not> pump_on \<and> delta > DEAD_BAND));
             old = dict_get (inv_badcnt s) tank 0;
             c = (if violated then old + 1 else 0);
             alerts = fst (check_invariants state ct s);
             s' = snd (check_invariants state ct s)
         in DEAD_BAND = 3602879701896397 / 36028797018963968 \<and>
            filter (\<lambda>a. alert_tank a = tank \<and> is_invariant_violation a) alerts
              = (if c \<ge> 2 then [INVARIANT_VIOLATION ct tank level pv c] else []) \<and>
            inv_badcnt s' tank = Some (if c \<ge> 2 then 0 else c) \<and>
            inv_prev s' tank = Some level \<and>
            (\<bar>delta\<bar> = DEAD_BAND \<longrightarrow> \<not> violated) \<and>
            (old = 0 \<or> old = 1 \<longrightarrow>
               (c \<ge> 2 \<longleftrightarrow> violated \<and> old = 1) \<and> (c \<ge> 2 \<longrightarrow> c = 2) \<and>
               (inv_badcnt s' tank = Some 0 \<or> inv_badcnt s' tank = Some 1))"
proof -
  note t = check_invariants_tank [OF assms(1,2), of state ct]
  have v: "DEAD_BAND = 3602879701896397 / 36028797018963968" by (rule DEAD_BAND_value)
  have b: "\<bar>float_sub (dict_get state tank 0) pv\<bar> = DEAD_BAND \<Longrightarrow>
      \<not> float_sub (dict_get state tank 0) pv < - DEAD_BAND \<and>
      \<not> float_sub (dict_get state tank 0) pv > DEAD_BAND"
    using DEAD_BAND_pos by linarith
  show ?thesis
    unfolding Let_def filter_conj_tank t
    using assms(3) v b
    by (auto simp: invariant_tank_step_eq Let_def)
qed

text \<open>The witness is the third of the levels 1.4, 1.5, 1.6 as doubles with the pump off: the
  rounded difference of 1.6 and 1.5 lies above the dead band.\<close>

theorem invariant_violation_counter_witness:
  "distinct (tanks ((init_detector [''T1''] [''PU1''])\<lparr>inv_prev := [''T1'' \<mapsto> 3 / 2], inv_badcnt := [''T1'' \<mapsto> 1]\<rparr>)) \<and>
   ''T1'' \<in> set (tanks ((init_detector [''T1''] [''PU1''])\<lparr>inv_prev := [''T1'' \<mapsto> 3 / 2], inv_badcnt := [''T1'' \<mapsto> 1]\<rparr>)) \<and>
   inv_prev ((init_detector [''T1''] [''PU1''])\<lparr>inv_prev := [''T1'' \<mapsto> 3 / 2], inv_badcnt := [''T1'' \<mapsto> 1]\<rparr>) ''T1''
     = Some (3 / 2) \<and>
   float_sub (7205759403792794 / 4503599627370496) (3 / 2) = 450359962737050 / 4503599627370496 \<and>
   filter (\<lambda>a. alert_tank a = ''T1'' \<and> is_invariant_violation a)
     (fst (check_invariants [''T1'' \<mapsto> 7205759403792794 / 4503599627370496, ''PU1'' \<mapsto> 0] 3
        ((init_detector [''T1''] [''PU1''])\<lparr>inv_prev := [''T1'' \<mapsto> 3 / 2], inv_badcnt := [''T1'' \<mapsto> 1]\<rparr>)))
     = [INVARIANT_VIOLATION 3 ''T1'' (7205759403792794 / 4503599627370496) (3 / 2) 2] \<and>
   inv_badcnt (snd (check_invariants [''T1'' \<mapsto> 7205759403792794 / 4503599627370496, ''PU1'' \<mapsto> 0] 3
        ((init_detector [''T1''] [''PU1''])\<lparr>inv_prev := [''T1'' \<mapsto> 3 / 2], inv_badcnt := [''T1'' \<mapsto> 1]\<rparr>))) ''T1''
     = Some 0"
proof -
  let ?s = "(init_detector [''T1''] [''PU1''])\<lparr>inv_prev := [''T1'' \<mapsto> 3 / 2], inv_badcnt := [''T1'' \<mapsto> 1]\<rparr>"
  let ?st = "[''T1'' \<mapsto> 7205759403792794 / 4503599627370496, ''PU1'' \<mapsto> 0 :: real]"
  have h1: "distinct (tanks ?s)" by (simp add: init_detector_def)
  have h2: "''T1'' \<in> set (tanks ?s)" by (simp add: init_detector_def)
  have h3: "inv_prev ?s ''T1'' = Some (3 / 2)" by simp
  have p: "\<not> pump_on_of ?st (pumps ?s)"
    by (simp add: pump_on_of_def init_detector_def dict_get_def)
  have d: "float_sub (7205759403792794 / 4503599627370496) (3 / 2) = 450359962737050 / 4503599627370496"
    by (simp add: double_eval Let_def)
  have l: "dict_get ?st ''T1'' 0 = 7205759403792794 / 4503599627370496"
    by (simp add: dict_get_def)
  have o: "dict_get (inv_badcnt ?s) ''T1'' 0 = 1" by (simp add: dict_get_def)
  note inst = invariant_violation_counter [OF h1 h2 h3, of ?st 3, unfolded Let_def l o d]
  have gt: "(450359962737050 / 4503599627370496 :: real) > DEAD_BAND" by (simp add: DEAD_BAND_value)
  from inst p gt have
    "filter (\<lambda>a. alert_tank a = ''T1'' \<and> is_invariant_violation a) (fst (check_invariants ?st 3 ?s))
       = [INVARIANT_VIOLATION 3 ''T1'' (7205759403792794 / 4503599627370496) (3 / 2) 2]"
    and "inv_badcnt (snd (check_invariants ?st 3 ?s)) ''T1'' = Some 0"
    by simp_all
  with h1 h2 h3 d show ?thesis by (intro conjI)
qed

text \<open>The facts that evaluate a call of \<^verbatim>\<open>check_invariants\<close> on a concrete state.\<close>

lemmas invariants_eval =
  check_invariants_def invariant_tank_step_def pump_on_of_def dict_get_def
  DEAD_BAND_value double_eval INV_PERSIST_def init_detector_def Let_def

text \<open>The comparison is one of doubles. With the pump off, the levels 1.4, 1.5, 1.6 as doubles
  give two violations and the alert on the third call, since both rounded differences lie
  above the double 0.10; the levels 0.0, 0.1, 0.2 as doubles give none, since both differences
  are that double.\<close>

lemma dead_band_rounded_above:
  "fst (check_invariants_calls
          [(1, [''T1'' \<mapsto> 6305039478318694 / 4503599627370496]),
           (2, [''T1'' \<mapsto> 3 / 2]),
           (3, [''T1'' \<mapsto> 7205759403792794 / 4503599627370496])]
          (init_detector [''T1''] []))
     = [[], [], [INVARIANT_VIOLATION 3 ''T1'' (7205759403792794 / 4503599627370496) (3 / 2) 2]]"
  by (simp add: invariants_eval)

lemma dead_band_rounded_equal:
  "fst (check_invariants_calls
          [(1, [''T1'' \<mapsto> 0]),
           (2, [''T1'' \<mapsto> 3602879701896397 / 36028797018963968]),
           (3, [''T1'' \<mapsto> 3602879701896397 / 18014398509481984])]
          (init_detector [''T1''] []))
     = [[], [], []]"
  by (simp add: invariants_eval)

subsection \<open>The empty-tank alert\<close>

lemma tank_empty_filter:
  assumes "distinct (tanks s)" and "tank \<in> set (tanks s)"
  shows "filter (\<lambda>a. alert_tank a = tank \<and> is_tank_empty a) (fst (check_invariants state ct s))
           = (if inv_prev s tank \<noteq> None \<and> dict_get state tank 0 = 0 then [TANK_EMPTY ct tank] else [])"
  unfolding filter_conj_tank check_invariants_tank [OF assms]
  by (auto simp: invariant_tank_step_eq Let_def split: option.splits)

lemma tank_empty_mem:
  "TANK_EMPTY ct tank \<in> set alerts \<longleftrightarrow>
   TANK_EMPTY ct tank \<in> set (filter (\<lambda>a. alert_tank a = tank \<and> is_tank_empty a) alerts)"
  by simp

lemma check_invariants_loop_tanks:
  "tanks (snd (check_invariants_loop state ct po ts alerts s)) = tanks s \<and>
   pumps (snd (check_invariants_loop state ct po ts alerts s)) = pumps s"
  by (induction ts arbitrary: alerts s)
     (simp_all add: invariant_tank_step_eq Let_def split: prod.splits option.splits)

lemma check_invariants_tanks:
  "tanks (snd (check_invariants state ct s)) = tanks s"
  "pumps (snd (check_invariants state ct s)) = pumps s"
  by (simp_all add: check_invariants_def check_invariants_loop_tanks)

lemma check_invariants_prev:
  assumes "distinct (tanks s)" and "tank \<in> set (tanks s)"
  shows "inv_prev (snd (check_invariants state ct s)) tank = Some (dict_get state tank 0)"
  unfolding check_invariants_tank [OF assms]
  by (simp add: invariant_tank_step_eq Let_def split: option.splits)

lemma tank_empty_sequence:
  assumes d: "distinct ts" and m: "tank \<in> set ts"
    and l: "dict_get st1 tank 0 = 5" "dict_get st2 tank 0 = 0" "dict_get st3 tank 0 = 0" "dict_get st4 tank 0 = 3"
  shows "map (filter (\<lambda>a. alert_tank a = tank \<and> is_tank_empty a))
           (fst (check_invariants_calls [(1, st1), (2, st2), (3, st3), (4, st4)] (init_detector ts ps)))
         = [[], [TANK_EMPTY 2 tank], [TANK_EMPTY 3 tank], []]"
proof -
  let ?d0 = "init_detector ts ps"
  let ?d1 = "snd (check_invariants st1 1 ?d0)"
  let ?d2 = "snd (check_invariants st2 2 ?d1)"
  let ?d3 = "snd (check_invariants st3 3 ?d2)"
  have t0: "tanks ?d0 = ts" by (simp add: init_detector_def)
  have t1: "tanks ?d1 = ts" by (simp add: check_invariants_tanks t0)
  have t2: "tanks ?d2 = ts" by (simp add: check_invariants_tanks t1)
  have t3: "tanks ?d3 = ts" by (simp add: check_invariants_tanks t2)
  have p0: "inv_prev ?d0 tank = None" by (simp add: init_detector_def)
  have p1: "inv_prev ?d1 tank = Some 5"
    using check_invariants_prev [of ?d0 tank st1 1] d m t0 l by simp
  have p2: "inv_prev ?d2 tank = Some 0"
    using check_invariants_prev [of ?d1 tank st2 2] d m t1 l by simp
  have p3: "inv_prev ?d3 tank = Some 0"
    using check_invariants_prev [of ?d2 tank st3 3] d m t2 l by simp
  have f1: "filter (\<lambda>a. alert_tank a = tank \<and> is_tank_empty a) (fst (check_invariants st1 1 ?d0)) = []"
    using tank_empty_filter [of ?d0 tank st1 1] d m t0 p0 by simp
  have f2: "filter (\<lambda>a. alert_tank a = tank \<and> is_tank_empty a) (fst (check_invariants st2 2 ?d1)) = [TANK_EMPTY 2 tank]"
    using tank_empty_filter [of ?d1 tank st2 2] d m t1 p1 l by simp
  have f3: "filter (\<lambda>a. alert_tank a = tank \<and> is_tank_empty a) (fst (check_invariants st3 3 ?d2)) = [TANK_EMPTY 3 tank]"
    using tank_empty_filter [of ?d2 tank st3 3] d m t2 p2 l by simp
  have f4: "filter (\<lambda>a. alert_tank a = tank \<and> is_tank_empty a) (fst (check_invariants st4 4 ?d3)) = []"
    using tank_empty_filter [of ?d3 tank st4 4] d m t3 p3 l by simp
  show ?thesis
    using f1 f2 f3 f4 by (simp add: split_beta)
qed


text \<open>
  C3, amended. For a tank that has a recorded previous level, a call of \<^verbatim>\<open>check_invariants\<close>
  emits a TANK_EMPTY alert for the tank exactly when its current level equals 0.0, whatever
  the violation counter is; on the first observed sample of a tank (no previous level
  recorded) it emits none, whatever the level. The levels 5.0, 0.0, 0.0, 3.0 from the
  initial state yield TANK_EMPTY on iterations 2 and 3 only. As stated, the claim also
  promises the alert on the very first sample; the counterexample is a first sample of 0.0.
\<close>

theorem tank_empty_after_first_sample:
  assumes "distinct (tanks s)" and "tank \<in> set (tanks s)"
  shows "(TANK_EMPTY ct tank \<in> set (fst (check_invariants state ct s))
            \<longleftrightarrow> inv_prev s tank \<noteq> None \<and> dict_get state tank 0 = 0) \<and>
         filter (\<lambda>a. alert_tank a = tank \<and> is_tank_empty a) (fst (check_invariants state ct s))
           = (if inv_prev s tank \<noteq> None \<and> dict_get state tank 0 = 0 then [TANK_EMPTY ct tank] else []) \<and>
         (tanks s = ts \<and> dict_get st1 tank 0 = 5 \<and> dict_get st2 tank 0 = 0 \<and>
          dict_get st3 tank 0 = 0 \<and> dict_get st4 tank 0 = 3 \<longrightarrow>
            map (filter (\<lambda>a. alert_tank a = tank \<and> is_tank_empty a))
              (fst (check_invariants_calls [(1, st1), (2, st2), (3, st3), (4, st4)] (init_detector ts ps)))
            = [[], [TANK_EMPTY 2 tank], [TANK_EMPTY 3 tank], []])"
proof (intro conjI impI)
  show "TANK_EMPTY ct tank \<in> set (fst (check_invariants state ct s))
            \<longleftrightarrow> inv_prev s tank \<noteq> None \<and> dict_get state tank 0 = 0"
    unfolding tank_empty_mem [of ct tank "fst (check_invariants state ct s)"] tank_empty_filter [OF assms]
    by simp
  show "filter (\<lambda>a. alert_tank a = tank \<and> is_tank_empty a) (fst (check_invariants state ct s))
           = (if inv_prev s tank \<noteq> None \<and> dict_get state tank 0 = 0 then [TANK_EMPTY ct tank] else [])"
    by (rule tank_empty_filter [OF assms])
next
  assume h: "tanks s = ts \<and> dict_get st1 tank 0 = 5 \<and> dict_get st2 tank 0 = 0 \<and>
          dict_get st3 tank 0 = 0 \<and> dict_get st4 tank 0 = 3"
  then have "distinct ts" "tank \<in> set ts" using assms by auto
  then show "map (filter (\<lambda>a. alert_tank a = tank \<and> is_tank_empty a))
              (fst (check_invariants_calls [(1, st1), (2, st2), (3, st3), (4, st4)] (init_detector ts ps)))
            = [[], [TANK_EMPTY 2 tank], [TANK_EMPTY 3 tank], []]"
    using h by (intro tank_empty_sequence) simp_all
qed

theorem tank_empty_first_sample_counterexample:
  "''T1'' \<in> set (tanks (init_detector [''T1''] [])) \<and>
   dict_get [''T1'' \<mapsto> 0] ''T1'' 0 = (0 :: real) \<and>
   TANK_EMPTY 1 ''T1'' \<notin> set (fst (check_invariants [''T1'' \<mapsto> 0] 1 (init_detector [''T1''] [])))"
  by (simp add: check_invariants_def invariant_tank_step_def init_detector_def dict_get_def
        pump_on_of_def Let_def)

theorem tank_empty_after_first_sample_witness:
  "distinct (tanks (init_detector [''T1''] [])) \<and>
   ''T1'' \<in> set (tanks (init_detector [''T1''] [])) \<and>
   tanks (init_detector [''T1''] []) = [''T1''] \<and>
   dict_get [''T1'' \<mapsto> 5] ''T1'' 0 = (5 :: real) \<and> dict_get [''T1'' \<mapsto> 0] ''T1'' 0 = (0 :: real) \<and>
   dict_get [''T1'' \<mapsto> 3] ''T1'' 0 = (3 :: real) \<and>
   map (filter (\<lambda>a. alert_tank a = ''T1'' \<and> is_tank_empty a))
     (fst (check_invariants_calls
        [(1, [''T1'' \<mapsto> 5]), (2, [''T1'' \<mapsto> 0]), (3, [''T1'' \<mapsto> 0]), (4, [''T1'' \<mapsto> 3])]
        (init_detector [''T1''] [])))
     = [[], [TANK_EMPTY 2 ''T1''], [TANK_EMPTY 3 ''T1''], []]"
proof -
  let ?s = "init_detector [''T1''] []"
  have h1: "distinct (tanks ?s)" by (simp add: init_detector_def)
  have h2: "''T1'' \<in> set (tanks ?s)" by (simp add: init_detector_def)
  have h3: "tanks ?s = [''T1'']" by (simp add: init_detector_def)
  have h4: "dict_get [''T1'' \<mapsto> 5] ''T1'' 0 = (5 :: real)" "dict_get [''T1'' \<mapsto> 0] ''T1'' 0 = (0 :: real)"
    "dict_get [''T1'' \<mapsto> 3] ''T1'' 0 = (3 :: real)" by (simp_all add: dict_get_def)
  show ?thesis
    using tank_empty_after_first_sample [OF h1 h2, of 1 "[''T1'' \<mapsto> 0]" "[''T1'']"
        "[''T1'' \<mapsto> 5]" "[''T1'' \<mapsto> 0]" "[''T1'' \<mapsto> 0]" "[''T1'' \<mapsto> 3]" "[]"] h1 h2 h3 h4
    by simp
qed

subsection \<open>A tank missing from the snapshot\<close>

lemma check_invariants_loop_state_cong:
  "\<forall>t. dict_get state t 0 = dict_get state' t 0 \<Longrightarrow>
   check_invariants_loop state ct po ts alerts s = check_invariants_loop state' ct po ts alerts s"
  by (induction ts arbitrary: alerts s) (simp_all split: prod.splits)

lemma pump_on_of_cong:
  "\<forall>t. dict_get state t 0 = dict_get state' t 0 \<Longrightarrow> pump_on_of state ps = pump_on_of state' ps"
  by (simp add: pump_on_of_def)

lemma check_invariants_state_cong:
  assumes "\<forall>t. dict_get state t 0 = dict_get state' t 0"
  shows "check_invariants state ct s = check_invariants state' ct s"
  unfolding check_invariants_def pump_on_of_cong [OF assms]
  by (rule check_invariants_loop_state_cong [OF assms])


text \<open>
  C10. A tank absent from the snapshot reads as level 0.0: \<^verbatim>\<open>check_invariants\<close> returns the
  same alerts and the same state as for the snapshot that gives the tank the value 0.0, and
  once the tank has a recorded previous level the call emits TANK_EMPTY for it.
\<close>

theorem missing_tank_reads_as_empty:
  assumes "state tank = None"
  shows "dict_get state tank 0 = 0 \<and>
         check_invariants state ct s = check_invariants (state(tank \<mapsto> 0)) ct s \<and>
         (distinct (tanks s) \<and> tank \<in> set (tanks s) \<and> inv_prev s tank \<noteq> None \<longrightarrow>
            TANK_EMPTY ct tank \<in> set (fst (check_invariants state ct s)))"
proof (intro conjI impI)
  show z: "dict_get state tank 0 = 0" using assms by (simp add: dict_get_def)
  have "\<forall>t. dict_get state t 0 = dict_get (state(tank \<mapsto> 0)) t 0"
    using assms by (simp add: dict_get_def)
  then show "check_invariants state ct s = check_invariants (state(tank \<mapsto> 0)) ct s"
    by (rule check_invariants_state_cong)
  assume "distinct (tanks s) \<and> tank \<in> set (tanks s) \<and> inv_prev s tank \<noteq> None"
  then show "TANK_EMPTY ct tank \<in> set (fst (check_invariants state ct s))"
    unfolding tank_empty_mem [of ct tank "fst (check_invariants state ct s)"]
    using z by (simp add: tank_empty_filter)
qed

theorem missing_tank_reads_as_empty_witness:
  "[''T2'' \<mapsto> 4 :: real] ''T1'' = None \<and>
   distinct (tanks ((init_detector [''T1'', ''T2''] [])\<lparr>inv_prev := [''T1'' \<mapsto> 5, ''T2'' \<mapsto> 4]\<rparr>)) \<and>
   ''T1'' \<in> set (tanks ((init_detector [''T1'', ''T2''] [])\<lparr>inv_prev := [''T1'' \<mapsto> 5, ''T2'' \<mapsto> 4]\<rparr>)) \<and>
   inv_prev ((init_detector [''T1'', ''T2''] [])\<lparr>inv_prev := [''T1'' \<mapsto> 5, ''T2'' \<mapsto> 4]\<rparr>) ''T1'' \<noteq> None \<and>
   fst (check_invariants [''T2'' \<mapsto> 4] 7
          ((init_detector [''T1'', ''T2''] [])\<lparr>inv_prev := [''T1'' \<mapsto> 5, ''T2'' \<mapsto> 4]\<rparr>))
     = [TANK_EMPTY 7 ''T1''] \<and>
   TANK_EMPTY 7 ''T1'' \<in> set (fst (check_invariants [''T2'' \<mapsto> 4] 7
          ((init_detector [''T1'', ''T2''] [])\<lparr>inv_prev := [''T1'' \<mapsto> 5, ''T2'' \<mapsto> 4]\<rparr>)))"
proof -
  let ?s = "(init_detector [''T1'', ''T2''] [])\<lparr>inv_prev := [''T1'' \<mapsto> 5, ''T2'' \<mapsto> 4]\<rparr>"
  have h0: "[''T2'' \<mapsto> 4 :: real] ''T1'' = None" by simp
  have h1: "distinct (tanks ?s) \<and> ''T1'' \<in> set (tanks ?s) \<and> inv_prev ?s ''T1'' \<noteq> None"
    by (simp add: init_detector_def)
  have e: "fst (check_invariants [''T2'' \<mapsto> 4] 7 ?s) = [TANK_EMPTY 7 ''T1'']"
    by (simp add: check_invariants_def invariant_tank_step_def init_detector_def dict_get_def
        pump_on_of_def Let_def DEAD_BAND_value double_eval INV_PERSIST_def)
  show ?thesis
    using missing_tank_reads_as_empty [of "[''T2'' \<mapsto> 4]" "''T1''" 7 ?s] h0 h1 e by simp
qed

subsection \<open>The mean-drift detector\<close>









text \<open>A block mean of 0.5 against a previous mean that is the double -0.1: the exact
  difference lies above the double 0.6, the float difference is that double, and there is no
  alert.\<close>

lemma drift_rounded_equal:
  "1 / 2 - (- (3602879701896397 / 36028797018963968)) > DRIFT_THRESHOLD \<and>
   float_sub (1 / 2) (- (3602879701896397 / 36028797018963968)) = DRIFT_THRESHOLD \<and>
   drift_alert 9 ''T1'' (Some (- (3602879701896397 / 36028797018963968))) (1 / 2) = []"
  by (simp add: drift_alert_def DRIFT_THRESHOLD_value double_eval Let_def)

subsection \<open>Runs of the monitoring loop\<close>

text \<open>The runs below are for one tank \<^verbatim>\<open>T1\<close> and no pump. During the warm-up a pass only
  fills the window, prints the warm-up line and records the iteration.\<close>

lemma monitor_run_append:
  "monitor_run wa (xs @ ys) m = monitor_run wa ys (monitor_run wa xs m)"
  by (induction xs arbitrary: m) auto

lemma monitor_pass_warm_up:
  assumes "Suc n < W"
  shows "monitor_pass wa (Some (int (Suc n))) [''T1'' \<mapsto> v]
     \<lparr>det = (init_detector [''T1''] [])
              \<lparr>cusum_state := [''T1'' \<mapsto> \<lparr>buffer = replicate n v, C_plus = 0, C_minus = 0,
                                          h_t = None, persist = None\<rparr>]\<rparr>,
      last_time = (if n = 0 then - 1 else int n),
      console = map (\<lambda>i. WarmingUp [(''T1'', i)]) [1..<Suc n],
      delivered = []\<rparr>
   = \<lparr>det = (init_detector [''T1''] [])
              \<lparr>cusum_state := [''T1'' \<mapsto> \<lparr>buffer = replicate (Suc n) v, C_plus = 0, C_minus = 0,
                                          h_t = None, persist = None\<rparr>]\<rparr>,
      last_time = int (Suc n),
      console = map (\<lambda>i. WarmingUp [(''T1'', i)]) [1..<Suc (Suc n)],
      delivered = []\<rparr>"
  using assms
  by (simp add: monitor_pass_def check_cusum_def init_detector_def cusum_tank_step_def
          deque_append_def dict_get_def replicate_append_same)

lemma monitor_run_warm_up:
  "n < W \<Longrightarrow>
   monitor_run wa (map (\<lambda>i. (Some (int i), [''T1'' \<mapsto> v])) [1..<Suc n]) (init_monitor [''T1''] []) =
     \<lparr>det = (init_detector [''T1''] [])
              \<lparr>cusum_state := [''T1'' \<mapsto> \<lparr>buffer = replicate n v, C_plus = 0, C_minus = 0,
                                          h_t = None, persist = None\<rparr>]\<rparr>,
      last_time = (if n = 0 then - 1 else int n),
      console = map (\<lambda>i. WarmingUp [(''T1'', i)]) [1..<Suc n],
      delivered = []\<rparr>"
proof (induction n)
  case 0
  show ?case by (auto simp: init_monitor_def init_detector_def fun_eq_iff)
next
  case (Suc n)
  then have n: "n < W" and sn: "Suc n < W" by simp_all
  have polls: "map (\<lambda>i. (Some (int i), [''T1'' \<mapsto> v])) [1..<Suc (Suc n)]
      = map (\<lambda>i. (Some (int i), [''T1'' \<mapsto> v])) [1..<Suc n] @ [(Some (int (Suc n)), [''T1'' \<mapsto> v])]"
    by simp
  have "monitor_run wa (map (\<lambda>i. (Some (int i), [''T1'' \<mapsto> v])) [1..<Suc (Suc n)]) (init_monitor [''T1''] [])
      = monitor_pass wa (Some (int (Suc n))) [''T1'' \<mapsto> v]
          (monitor_run wa (map (\<lambda>i. (Some (int i), [''T1'' \<mapsto> v])) [1..<Suc n]) (init_monitor [''T1''] []))"
    unfolding polls monitor_run_append by simp
  also have "\<dots> = \<lparr>det = (init_detector [''T1''] [])
              \<lparr>cusum_state := [''T1'' \<mapsto> \<lparr>buffer = replicate (Suc n) v, C_plus = 0, C_minus = 0,
                                          h_t = None, persist = None\<rparr>]\<rparr>,
      last_time = int (Suc n),
      console = map (\<lambda>i. WarmingUp [(''T1'', i)]) [1..<Suc (Suc n)],
      delivered = []\<rparr>"
    unfolding Suc.IH [OF n] by (rule monitor_pass_warm_up [OF sn])
  finally have r: "monitor_run wa (map (\<lambda>i. (Some (int i), [''T1'' \<mapsto> v])) [1..<Suc (Suc n)]) (init_monitor [''T1''] [])
      = \<lparr>det = (init_detector [''T1''] [])
              \<lparr>cusum_state := [''T1'' \<mapsto> \<lparr>buffer = replicate (Suc n) v, C_plus = 0, C_minus = 0,
                                          h_t = None, persist = None\<rparr>]\<rparr>,
      last_time = int (Suc n),
      console = map (\<lambda>i. WarmingUp [(''T1'', i)]) [1..<Suc (Suc n)],
      delivered = []\<rparr>" .
  have e: "(if Suc n = 0 then - 1 else int (Suc n)) = int (Suc n)" by simp
  show ?case unfolding e by (rule r)
qed

text \<open>The facts that evaluate a pass on a concrete state.\<close>

lemmas monitor_eval =
  monitor_pass_def detect_and_forward_def check_cusum_def cusum_tank_step_def
  compute_replicate_append compute_replicate deque_append_def dict_get_def W_def DECAY_def
  PERSISTENCE_THRESHOLD_def check_invariants_def invariant_tank_step_def pump_on_of_def
  DEAD_BAND_value double_eval INV_PERSIST_def check_drift_def log_error_def init_detector_def Let_def

lemma transition_pass_example:
  "monitor_pass write_alert (Some 144) [''T1'' \<mapsto> 2]
     \<lparr>det = (init_detector [''T1''] [])
              \<lparr>cusum_state := [''T1'' \<mapsto> \<lparr>buffer = replicate 143 1, C_plus = 0, C_minus = 0,
                                          h_t = None, persist = None\<rparr>]\<rparr>,
      last_time = 143,
      console = map (\<lambda>i. WarmingUp [(''T1'', i)]) [1..<144],
      delivered = []\<rparr>
   = \<lparr>det = (init_detector [''T1''] [])
              \<lparr>cusum_state := [''T1'' \<mapsto> \<lparr>buffer = replicate 142 1 @ [2, 2], C_plus = 7 / 10, C_minus = 0,
                                          h_t = Some (8 / 10), persist = Some 0\<rparr>],
               long_term_buffers := [''T1'' \<mapsto> [2]],
               inv_prev := [''T1'' \<mapsto> 2]\<rparr>,
      last_time = 144,
      console = map (\<lambda>i. WarmingUp [(''T1'', i)]) [1..<144] @ [Summary 144 [(''T1'', 7 / 10, 0, 8 / 10)]],
      delivered = []\<rparr>"
  by (simp add: monitor_eval)

text \<open>A poll with no iteration id, or with the id processed last, changes nothing.\<close>

lemma monitor_pass_idle:
  "monitor_pass wa None state m = m" "monitor_pass wa (Some (last_time m)) state m = m"
  by (simp_all add: monitor_pass_def)


text \<open>Once every window is full, a pass with a new iteration id runs the CUSUM update of every
  tank twice with the same sample: \<^verbatim>\<open>monitor\<close> calls \<^verbatim>\<open>check_cusum\<close> before its warm-up test
  and again in the first forwarding loop.\<close>

lemma any_warming_full:
  "\<forall>t \<in> set ts. \<exists>st. cusum_state s t = Some st \<and> \<not> length (buffer st) < W \<Longrightarrow>
   any_warming ts s = Inr False"
  by (induction ts) auto

lemma monitor_pass_detecting_cusum:
  assumes d: "distinct (tanks (det m))"
    and full: "\<forall>t \<in> set (tanks (det m)). \<exists>e. cusum_state (det m) t = Some e \<and> \<not> length (buffer e) < W"
    and new: "ct \<noteq> last_time m"
    and tk: "tank \<in> set (tanks (det m))"
    and st: "cusum_state (det m) tank = Some st"
  shows "cusum_state (det (monitor_pass wa (Some ct) state m)) tank =
           Some (fst (cusum_tank_step (k_attack (det m)) ct tank (dict_get state tank 0)
                  (fst (cusum_tank_step (k_attack (det m)) ct tank (dict_get state tank 0) st))))"
proof -
  let ?s = "det m"
  let ?step = "\<lambda>t e. cusum_tank_step (k_attack ?s) ct t (dict_get state t 0) e"
  let ?d1 = "?s\<lparr>cusum_state := (\<lambda>t. if t \<in> set (tanks ?s)
           then Some (fst (?step t (the (cusum_state ?s t)))) else cusum_state ?s t)\<rparr>"
  have dom: "\<forall>t \<in> set (tanks ?s). cusum_state ?s t \<noteq> None" using full by auto
  obtain a1 where c1: "check_cusum state ct ?s = (Inr a1, ?d1)"
    using check_cusum_char [OF d dom, of state ct] by simp
  have t1: "tanks ?d1 = tanks ?s" and k1: "k_attack ?d1 = k_attack ?s" by simp_all
  have full1: "\<forall>t \<in> set (tanks ?d1). \<exists>e. cusum_state ?d1 t = Some e \<and> \<not> length (buffer e) < W"
  proof
    fix t assume "t \<in> set (tanks ?d1)"
    then have t: "t \<in> set (tanks ?s)" by simp
    then obtain e where e: "cusum_state ?s t = Some e" "\<not> length (buffer e) < W" using full by auto
    have "\<not> length (buffer (fst (?step t e))) < W" by (rule cusum_tank_step_stays_full [OF e(2)])
    then show "\<exists>e. cusum_state ?d1 t = Some e \<and> \<not> length (buffer e) < W" using t e by simp
  qed
  have w: "any_warming (tanks ?d1) ?d1 = Inr False" by (rule any_warming_full [OF full1])
  have pass: "monitor_pass wa (Some ct) state m = detect_and_forward wa state ct (m\<lparr>det := ?d1\<rparr>)"
    using new c1 w by (simp add: monitor_pass_def)
  have d1: "distinct (tanks ?d1)" using d by simp
  have dom1: "\<forall>t \<in> set (tanks ?d1). cusum_state ?d1 t \<noteq> None" using full1 by auto
  obtain a2 d2 where c2: "check_cusum state ct ?d1 = (Inr a2, d2)"
    and d2: "cusum_state d2 tank = Some (fst (cusum_tank_step (k_attack ?d1) ct tank (dict_get state tank 0)
                (the (cusum_state ?d1 tank))))"
    using check_cusum_char [OF d1 dom1, of state ct] tk by simp
  have "cusum_state (det (detect_and_forward wa state ct (m\<lparr>det := ?d1\<rparr>))) = cusum_state d2"
    using detect_and_forward_cs [of state ct "m\<lparr>det := ?d1\<rparr>" "Inr a2" d2 wa] c2 by simp
  then show ?thesis
    unfolding pass using d2 tk st by simp
qed

text \<open>
  C2. The claim does not hold of \<^verbatim>\<open>monitor\<close>. With the tank \<^verbatim>\<open>T1\<close> at level 1.0 on the
  iterations 1 to 143 and at 2.0 on iteration 144, the loop has processed iteration 144
  without an error (\<open>last_time\<close> is 144, nothing was forwarded), and the window of \<^verbatim>\<open>T1\<close>
  holds the sample 2.0 of iteration 144 twice: the 144 samples are 142 times 1.0 and twice
  2.0, where one update per iteration would leave 143 times 1.0 and once 2.0. The detection
  step ran on iteration 144 itself, on a window that already contained that sample.
\<close>

theorem monitor_updates_cusum_twice:
  "cusum_state (det (monitor_run write_alert
       (map (\<lambda>i. (Some (int i), [''T1'' \<mapsto> 1])) [1..<144] @ [(Some 144, [''T1'' \<mapsto> 2])])
       (init_monitor [''T1''] []))) ''T1''
     = Some \<lparr>buffer = replicate 142 1 @ [2, 2], C_plus = 7 / 10, C_minus = 0,
              h_t = Some (8 / 10), persist = Some 0\<rparr> \<and>
   last_time (monitor_run write_alert
       (map (\<lambda>i. (Some (int i), [''T1'' \<mapsto> 1])) [1..<144] @ [(Some 144, [''T1'' \<mapsto> 2])])
       (init_monitor [''T1''] [])) = 144 \<and>
   delivered (monitor_run write_alert
       (map (\<lambda>i. (Some (int i), [''T1'' \<mapsto> 1])) [1..<144] @ [(Some 144, [''T1'' \<mapsto> 2])])
       (init_monitor [''T1''] [])) = []"
proof -
  have w: "(143 :: nat) < W" by (simp add: W_def)
  have "monitor_run write_alert
       (map (\<lambda>i. (Some (int i), [''T1'' \<mapsto> 1])) [1..<144] @ [(Some 144, [''T1'' \<mapsto> 2])])
       (init_monitor [''T1''] [])
     = monitor_pass write_alert (Some 144) [''T1'' \<mapsto> 2]
         (monitor_run write_alert (map (\<lambda>i. (Some (int i), [''T1'' \<mapsto> 1])) [1..<Suc 143])
            (init_monitor [''T1''] []))"
    by (simp add: monitor_run_append)
  also have "\<dots> = \<lparr>det = (init_detector [''T1''] [])
              \<lparr>cusum_state := [''T1'' \<mapsto> \<lparr>buffer = replicate 142 1 @ [2, 2], C_plus = 7 / 10, C_minus = 0,
                                          h_t = Some (8 / 10), persist = Some 0\<rparr>],
               long_term_buffers := [''T1'' \<mapsto> [2]],
               inv_prev := [''T1'' \<mapsto> 2]\<rparr>,
      last_time = 144,
      console = map (\<lambda>i. WarmingUp [(''T1'', i)]) [1..<144] @ [Summary 144 [(''T1'', 7 / 10, 0, 8 / 10)]],
      delivered = []\<rparr>"
    unfolding monitor_run_warm_up [OF w] using transition_pass_example by simp
  finally show ?thesis by simp
qed


subsection \<open>Alerts that are not forwarded\<close>

lemma empty_tank_pass_144:
  "monitor_pass wa (Some 144) [''T1'' \<mapsto> 0]
     \<lparr>det = (init_detector [''T1''] [])
              \<lparr>cusum_state := [''T1'' \<mapsto> \<lparr>buffer = replicate 143 0, C_plus = 0, C_minus = 0,
                                          h_t = None, persist = None\<rparr>]\<rparr>,
      last_time = 143,
      console = map (\<lambda>i. WarmingUp [(''T1'', i)]) [1..<144],
      delivered = []\<rparr>
   = \<lparr>det = (init_detector [''T1''] [])
              \<lparr>cusum_state := [''T1'' \<mapsto> \<lparr>buffer = replicate 142 0 @ [0, 0], C_plus = 0, C_minus = 0,
                                          h_t = Some (8 / 10), persist = Some 0\<rparr>],
               long_term_buffers := [''T1'' \<mapsto> [0]],
               inv_prev := [''T1'' \<mapsto> 0]\<rparr>,
      last_time = 144,
      console = map (\<lambda>i. WarmingUp [(''T1'', i)]) [1..<144] @ [Summary 144 [(''T1'', 0, 0, 8 / 10)]],
      delivered = []\<rparr>"
  by (simp add: monitor_eval)

lemma empty_tank_pass_145_unbound:
  "monitor_pass write_alert (Some 145) [''T1'' \<mapsto> 0]
     \<lparr>det = (init_detector [''T1''] [])
              \<lparr>cusum_state := [''T1'' \<mapsto> \<lparr>buffer = replicate 142 0 @ [0, 0], C_plus = 0, C_minus = 0,
                                          h_t = Some (8 / 10), persist = Some 0\<rparr>],
               long_term_buffers := [''T1'' \<mapsto> [0]],
               inv_prev := [''T1'' \<mapsto> 0]\<rparr>,
      last_time = 144,
      console = map (\<lambda>i. WarmingUp [(''T1'', i)]) [1..<144] @ [Summary 144 [(''T1'', 0, 0, 8 / 10)]],
      delivered = []\<rparr>
   = \<lparr>det = (init_detector [''T1''] [])
              \<lparr>cusum_state := [''T1'' \<mapsto> \<lparr>buffer = replicate 140 0 @ [0, 0, 0, 0], C_plus = 0, C_minus = 0,
                                          h_t = Some (8 / 10), persist = Some 0\<rparr>],
               long_term_buffers := [''T1'' \<mapsto> [0]],
               inv_prev := [''T1'' \<mapsto> 0],
               inv_badcnt := [''T1'' \<mapsto> 0]\<rparr>,
      last_time = 144,
      console = map (\<lambda>i. WarmingUp [(''T1'', i)]) [1..<144] @
                [Summary 144 [(''T1'', 0, 0, 8 / 10)], ErrorLine (NameError ''write_alert'')],
      delivered = []\<rparr>"
  by (simp add: monitor_eval write_alert_def)

lemma empty_tank_pass_145_accepting:
  "monitor_pass (\<lambda>a. None) (Some 145) [''T1'' \<mapsto> 0]
     \<lparr>det = (init_detector [''T1''] [])
              \<lparr>cusum_state := [''T1'' \<mapsto> \<lparr>buffer = replicate 142 0 @ [0, 0], C_plus = 0, C_minus = 0,
                                          h_t = Some (8 / 10), persist = Some 0\<rparr>],
               long_term_buffers := [''T1'' \<mapsto> [0]],
               inv_prev := [''T1'' \<mapsto> 0]\<rparr>,
      last_time = 144,
      console = map (\<lambda>i. WarmingUp [(''T1'', i)]) [1..<144] @ [Summary 144 [(''T1'', 0, 0, 8 / 10)]],
      delivered = []\<rparr>
   = \<lparr>det = (init_detector [''T1''] [])
              \<lparr>cusum_state := [''T1'' \<mapsto> \<lparr>buffer = replicate 140 0 @ [0, 0, 0, 0], C_plus = 0, C_minus = 0,
                                          h_t = Some (8 / 10), persist = Some 0\<rparr>],
               long_term_buffers := [''T1'' \<mapsto> [0, 0]],
               inv_prev := [''T1'' \<mapsto> 0],
               inv_badcnt := [''T1'' \<mapsto> 0]\<rparr>,
      last_time = 145,
      console = map (\<lambda>i. WarmingUp [(''T1'', i)]) [1..<144] @
                [Summary 144 [(''T1'', 0, 0, 8 / 10)], AlertLine (TANK_EMPTY 145 ''T1''),
                 Summary 145 [(''T1'', 0, 0, 8 / 10)]],
      delivered = [TANK_EMPTY 145 ''T1'']\<rparr>"
  by (simp add: monitor_eval)

lemma spike_pass_144:
  "monitor_pass wa (Some 144) [''T1'' \<mapsto> 1]
     \<lparr>det = (init_detector [''T1''] [])
            \<lparr>cusum_state := [''T1'' \<mapsto> \<lparr>buffer = replicate 143 1, C_plus = 0, C_minus = 0,
                      h_t = None, persist = None\<rparr>]\<rparr>,
           last_time = 143,
           console = map (\<lambda>i. WarmingUp [(''T1'', i)]) [1..<144],
           delivered = []\<rparr>
   = \<lparr>det = (init_detector [''T1''] [])
          \<lparr>cusum_state := [''T1'' \<mapsto> \<lparr>buffer = replicate 142 1 @ [1, 1], C_plus = 0, C_minus = 0,
                    h_t = Some (4 / 5), persist = Some 0\<rparr>],
           long_term_buffers := [''T1'' \<mapsto> [1]],
           inv_prev := [''T1'' \<mapsto> 1]\<rparr>,
         last_time = 144,
         console = map (\<lambda>i. WarmingUp [(''T1'', i)]) [1..<144] @
           [Summary 144 [(''T1'', 0, 0, 4 / 5)]],
         delivered = []\<rparr>"
  by (simp add: monitor_eval)

lemma spike_pass_145:
  "monitor_pass wa (Some 145) [''T1'' \<mapsto> 2]
     \<lparr>det = (init_detector [''T1''] [])
            \<lparr>cusum_state := [''T1'' \<mapsto> \<lparr>buffer = replicate 142 1 @ [1, 1], C_plus = 0, C_minus = 0,
                      h_t = Some (4 / 5), persist = Some 0\<rparr>],
             long_term_buffers := [''T1'' \<mapsto> [1]],
             inv_prev := [''T1'' \<mapsto> 1]\<rparr>,
           last_time = 144,
           console = map (\<lambda>i. WarmingUp [(''T1'', i)]) [1..<144] @
             [Summary 144 [(''T1'', 0, 0, 4 / 5)]],
           delivered = []\<rparr>
   = \<lparr>det = (init_detector [''T1''] [])
          \<lparr>cusum_state := [''T1'' \<mapsto> \<lparr>buffer = replicate 140 1 @ [1, 1, 2, 2], C_plus = 1393 / 1000, C_minus = 0,
                    h_t = Some (4 / 5), persist = Some 1\<rparr>],
           long_term_buffers := [''T1'' \<mapsto> [1, 2]],
           inv_prev := [''T1'' \<mapsto> 2],
           inv_badcnt := [''T1'' \<mapsto> 1]\<rparr>,
         last_time = 145,
         console = map (\<lambda>i. WarmingUp [(''T1'', i)]) [1..<144] @
           [Summary 144 [(''T1'', 0, 0, 4 / 5)],
            Summary 145 [(''T1'', 1393 / 1000, 0, 4 / 5)]],
         delivered = []\<rparr>"
  by (simp add: monitor_eval)

lemma spike_pass_146:
  "monitor_pass wa (Some 146) [''T1'' \<mapsto> 1]
     \<lparr>det = (init_detector [''T1''] [])
            \<lparr>cusum_state := [''T1'' \<mapsto> \<lparr>buffer = replicate 140 1 @ [1, 1, 2, 2], C_plus = 1393 / 1000, C_minus = 0,
                      h_t = Some (4 / 5), persist = Some 1\<rparr>],
             long_term_buffers := [''T1'' \<mapsto> [1, 2]],
             inv_prev := [''T1'' \<mapsto> 2],
             inv_badcnt := [''T1'' \<mapsto> 1]\<rparr>,
           last_time = 145,
           console = map (\<lambda>i. WarmingUp [(''T1'', i)]) [1..<144] @
             [Summary 144 [(''T1'', 0, 0, 4 / 5)],
              Summary 145 [(''T1'', 1393 / 1000, 0, 4 / 5)]],
           delivered = []\<rparr>
   = \<lparr>det = (init_detector [''T1''] [])
          \<lparr>cusum_state := [''T1'' \<mapsto> \<lparr>buffer = replicate 138 1 @ [1, 1, 2, 2, 1, 1], C_plus = 7682793 / 10000000, C_minus = 0,
                    h_t = Some (4 / 5), persist = Some 0\<rparr>],
           long_term_buffers := [''T1'' \<mapsto> [1, 2, 1]],
           inv_prev := [''T1'' \<mapsto> 1],
           inv_badcnt := [''T1'' \<mapsto> 0]\<rparr>,
         last_time = 146,
         console = map (\<lambda>i. WarmingUp [(''T1'', i)]) [1..<144] @
           [Summary 144 [(''T1'', 0, 0, 4 / 5)],
            Summary 145 [(''T1'', 1393 / 1000, 0, 4 / 5)],
            Summary 146 [(''T1'', 7682793 / 10000000, 0, 4 / 5)]],
         delivered = []\<rparr>"
  by (simp add: monitor_eval)

lemma spike_run_145:
  "monitor_run wa
     (map (\<lambda>i. (Some (int i), [''T1'' \<mapsto> 1])) [1..<144] @
        [(Some 144, [''T1'' \<mapsto> 1]), (Some 145, [''T1'' \<mapsto> 2])])
     (init_monitor [''T1''] [])
   = \<lparr>det = (init_detector [''T1''] [])
          \<lparr>cusum_state := [''T1'' \<mapsto> \<lparr>buffer = replicate 140 1 @ [1, 1, 2, 2], C_plus = 1393 / 1000, C_minus = 0,
                    h_t = Some (4 / 5), persist = Some 1\<rparr>],
           long_term_buffers := [''T1'' \<mapsto> [1, 2]],
           inv_prev := [''T1'' \<mapsto> 2],
           inv_badcnt := [''T1'' \<mapsto> 1]\<rparr>,
         last_time = 145,
         console = map (\<lambda>i. WarmingUp [(''T1'', i)]) [1..<144] @
           [Summary 144 [(''T1'', 0, 0, 4 / 5)],
            Summary 145 [(''T1'', 1393 / 1000, 0, 4 / 5)]],
         delivered = []\<rparr>"
proof -
  have w: "(143 :: nat) < W" by (simp add: W_def)
  have "monitor_run wa
     (map (\<lambda>i. (Some (int i), [''T1'' \<mapsto> 1])) [1..<144] @
        [(Some 144, [''T1'' \<mapsto> 1]), (Some 145, [''T1'' \<mapsto> 2])])
     (init_monitor [''T1''] [])
     = monitor_pass wa (Some 145) [''T1'' \<mapsto> 2]
        (monitor_pass wa (Some 144) [''T1'' \<mapsto> 1]
         (monitor_run wa (map (\<lambda>i. (Some (int i), [''T1'' \<mapsto> 1])) [1..<Suc 143])
            (init_monitor [''T1''] [])))"
    by (simp add: monitor_run_append)
  also have "\<dots> = monitor_pass wa (Some 145) [''T1'' \<mapsto> 2]
        (monitor_pass wa (Some 144) [''T1'' \<mapsto> 1]
          \<lparr>det = (init_detector [''T1''] [])
              \<lparr>cusum_state := [''T1'' \<mapsto> \<lparr>buffer = replicate 143 1, C_plus = 0, C_minus = 0,
                                          h_t = None, persist = None\<rparr>]\<rparr>,
           last_time = 143,
           console = map (\<lambda>i. WarmingUp [(''T1'', i)]) [1..<144],
           delivered = []\<rparr>)"
    unfolding monitor_run_warm_up [OF w] by simp
  finally show ?thesis
    unfolding spike_pass_144 spike_pass_145 .
qed

lemma spike_first_call_146:
  "fst (check_cusum [''T1'' \<mapsto> 1] 146 (det
     \<lparr>det = (init_detector [''T1''] [])
               \<lparr>cusum_state := [''T1'' \<mapsto> \<lparr>buffer = replicate 140 1 @ [1, 1, 2, 2], C_plus = 1393 / 1000, C_minus = 0,
                         h_t = Some (4 / 5), persist = Some 1\<rparr>],
                long_term_buffers := [''T1'' \<mapsto> [1, 2]],
                inv_prev := [''T1'' \<mapsto> 2],
                inv_badcnt := [''T1'' \<mapsto> 1]\<rparr>,
              last_time = 145,
              console = map (\<lambda>i. WarmingUp [(''T1'', i)]) [1..<144] @
                [Summary 144 [(''T1'', 0, 0, 4 / 5)],
                 Summary 145 [(''T1'', 1393 / 1000, 0, 4 / 5)]],
              delivered = []\<rparr>)) = Inr [CUSUM_ALARM 146 ''T1'' (107907 / 100000) 0 2]"
  by (simp add: monitor_eval)

text \<open>
  C1. The claim does not hold of \<^verbatim>\<open>monitor\<close>, for two reasons.
  First run: \<^verbatim>\<open>T1\<close> is at level 0.0 on the iterations 1 to 145. On iteration 145
  \<^verbatim>\<open>check_invariants\<close> emits TANK_EMPTY (a sink that accepts every alert receives it), but
  the module's call of \<^verbatim>\<open>write_alert\<close> raises NameError: nothing is delivered, no line is
  printed for the alert, the handler prints the error, and \<open>last_time\<close> stays at 144.
  Second run, for any behaviour \<open>wa\<close> of the sink: \<^verbatim>\<open>T1\<close> is at 1.0 on the iterations 1 to
  144, at 2.0 on 145 and at 1.0 on 146. On iteration 146 the first call of \<^verbatim>\<open>check_cusum\<close>
  returns a CUSUM_ALARM, which \<^verbatim>\<open>monitor\<close> discards; the second call returns none, so the
  alarm is neither delivered nor printed.
\<close>

theorem alerts_not_forwarded:
  "delivered (monitor_run write_alert
       (map (\<lambda>i. (Some (int i), [''T1'' \<mapsto> 0])) [1..<144] @
          [(Some 144, [''T1'' \<mapsto> 0]), (Some 145, [''T1'' \<mapsto> 0])])
       (init_monitor [''T1''] [])) = [] \<and>
   console (monitor_run write_alert
       (map (\<lambda>i. (Some (int i), [''T1'' \<mapsto> 0])) [1..<144] @
          [(Some 144, [''T1'' \<mapsto> 0]), (Some 145, [''T1'' \<mapsto> 0])])
       (init_monitor [''T1''] []))
     = map (\<lambda>i. WarmingUp [(''T1'', i)]) [1..<144] @
         [Summary 144 [(''T1'', 0, 0, 8 / 10)], ErrorLine (NameError ''write_alert'')] \<and>
   last_time (monitor_run write_alert
       (map (\<lambda>i. (Some (int i), [''T1'' \<mapsto> 0])) [1..<144] @
          [(Some 144, [''T1'' \<mapsto> 0]), (Some 145, [''T1'' \<mapsto> 0])])
       (init_monitor [''T1''] [])) = 144 \<and>
   delivered (monitor_run (\<lambda>a. None)
       (map (\<lambda>i. (Some (int i), [''T1'' \<mapsto> 0])) [1..<144] @
          [(Some 144, [''T1'' \<mapsto> 0]), (Some 145, [''T1'' \<mapsto> 0])])
       (init_monitor [''T1''] [])) = [TANK_EMPTY 145 ''T1''] \<and>
   fst (check_cusum [''T1'' \<mapsto> 1] 146 (det (monitor_run wa
       (map (\<lambda>i. (Some (int i), [''T1'' \<mapsto> 1])) [1..<144] @
          [(Some 144, [''T1'' \<mapsto> 1]), (Some 145, [''T1'' \<mapsto> 2])])
       (init_monitor [''T1''] [])))) = Inr [CUSUM_ALARM 146 ''T1'' (107907 / 100000) 0 2] \<and>
   delivered (monitor_run wa
       (map (\<lambda>i. (Some (int i), [''T1'' \<mapsto> 1])) [1..<144] @
          [(Some 144, [''T1'' \<mapsto> 1]), (Some 145, [''T1'' \<mapsto> 2]), (Some 146, [''T1'' \<mapsto> 1])])
       (init_monitor [''T1''] [])) = [] \<and>
   console (monitor_run wa
       (map (\<lambda>i. (Some (int i), [''T1'' \<mapsto> 1])) [1..<144] @
          [(Some 144, [''T1'' \<mapsto> 1]), (Some 145, [''T1'' \<mapsto> 2]), (Some 146, [''T1'' \<mapsto> 1])])
       (init_monitor [''T1''] []))
     = map (\<lambda>i. WarmingUp [(''T1'', i)]) [1..<144] @
         [Summary 144 [(''T1'', 0, 0, 8 / 10)], Summary 145 [(''T1'', 1393 / 1000, 0, 8 / 10)],
          Summary 146 [(''T1'', 7682793 / 10000000, 0, 8 / 10)]]"
proof -
  have w: "(143 :: nat) < W" by (simp add: W_def)
  have run: "\<And>wa. monitor_run wa
       (map (\<lambda>i. (Some (int i), [''T1'' \<mapsto> 0])) [1..<144] @
          [(Some 144, [''T1'' \<mapsto> 0]), (Some 145, [''T1'' \<mapsto> 0])])
       (init_monitor [''T1''] [])
     = monitor_pass wa (Some 145) [''T1'' \<mapsto> 0]
        (monitor_pass wa (Some 144) [''T1'' \<mapsto> 0]
         (monitor_run wa (map (\<lambda>i. (Some (int i), [''T1'' \<mapsto> 0])) [1..<Suc 143])
            (init_monitor [''T1''] [])))"
    by (simp add: monitor_run_append)
  have m144: "\<And>wa. monitor_pass wa (Some 144) [''T1'' \<mapsto> 0]
         (monitor_run wa (map (\<lambda>i. (Some (int i), [''T1'' \<mapsto> 0])) [1..<Suc 143])
            (init_monitor [''T1''] []))
      = \<lparr>det = (init_detector [''T1''] [])
              \<lparr>cusum_state := [''T1'' \<mapsto> \<lparr>buffer = replicate 142 0 @ [0, 0], C_plus = 0, C_minus = 0,
                                          h_t = Some (8 / 10), persist = Some 0\<rparr>],
               long_term_buffers := [''T1'' \<mapsto> [0]],
               inv_prev := [''T1'' \<mapsto> 0]\<rparr>,
      last_time = 144,
      console = map (\<lambda>i. WarmingUp [(''T1'', i)]) [1..<144] @ [Summary 144 [(''T1'', 0, 0, 8 / 10)]],
      delivered = []\<rparr>"
    unfolding monitor_run_warm_up [OF w] using empty_tank_pass_144 by simp
  have r146: "monitor_run wa
       (map (\<lambda>i. (Some (int i), [''T1'' \<mapsto> 1])) [1..<144] @
          [(Some 144, [''T1'' \<mapsto> 1]), (Some 145, [''T1'' \<mapsto> 2]), (Some 146, [''T1'' \<mapsto> 1])])
       (init_monitor [''T1''] [])
     = monitor_pass wa (Some 146) [''T1'' \<mapsto> 1] (monitor_run wa
       (map (\<lambda>i. (Some (int i), [''T1'' \<mapsto> 1])) [1..<144] @
          [(Some 144, [''T1'' \<mapsto> 1]), (Some 145, [''T1'' \<mapsto> 2])])
       (init_monitor [''T1''] []))"
    by (simp add: monitor_run_append)
  show ?thesis
    unfolding run m144 empty_tank_pass_145_unbound empty_tank_pass_145_accepting
      r146 spike_run_145 spike_pass_146 spike_first_call_146
    by simp
qed

end
